theory Spec2Isabelle
  imports Main "HOL-Library.Word"
begin

section \<open>Strings of the host language\<close>

text \<open>
  A JavaScript string is a sequence of 16-bit code units. \<open>js\<close> embeds a text of ASCII
  characters, each as its code.
\<close>

type_synonym code_unit = "16 word"

type_synonym jstring = "code_unit list"

definition js :: "string \<Rightarrow> jstring" where
  "js s = map of_char s"

text \<open>
  \<^verbatim>\<open>String.prototype.toUpperCase\<close> and \<^verbatim>\<open>toLowerCase\<close> follow the case mapping of Unicode,
  whose tables are not part of the repository: they are parameters of the model.
\<close>

record case_mapping =
  toUpperCase :: "jstring \<Rightarrow> jstring"
  toLowerCase :: "jstring \<Rightarrow> jstring"

definition high_surrogate :: "code_unit \<Rightarrow> bool" where
  "high_surrogate u = (0xD800 \<le> u \<and> u \<le> 0xDBFF)"

definition low_surrogate :: "code_unit \<Rightarrow> bool" where
  "low_surrogate u = (0xDC00 \<le> u \<and> u \<le> 0xDFFF)"

text \<open>
  The iteration \<^verbatim>\<open>for (const char of str)\<close> goes by code points: a high surrogate followed
  by a low surrogate is one character of two code units, every other code unit is a
  character of its own.
\<close>

fun code_points :: "jstring \<Rightarrow> jstring list" where
  "code_points [] = []"
| "code_points [u] = [[u]]"
| "code_points (u # v # us) =
     (if high_surrogate u \<and> low_surrogate v then [u, v] # code_points us
      else [u] # code_points (v # us))"

text \<open>
  \<^verbatim>\<open>s.replaceAll(p, r)\<close> for a search string \<open>p\<close> of one code unit: every occurrence of
  the code unit is replaced.
\<close>

definition replaceAll :: "code_unit \<Rightarrow> jstring \<Rightarrow> jstring \<Rightarrow> jstring" where
  "replaceAll p r s = concat (map (\<lambda>u. if u = p then r else [u]) s)"

text \<open>
  \<^verbatim>\<open>s.replace(pat, rep)\<close> with a string pattern: only the first occurrence of \<open>pat\<close>,
  scanning from the left, is replaced; a string without an occurrence is returned as it is.
\<close>

fun replace :: "jstring \<Rightarrow> jstring \<Rightarrow> jstring \<Rightarrow> jstring" where
  "replace pat rep [] = (if pat = [] then rep else [])"
| "replace pat rep (u # us) =
     (if take (length pat) (u # us) = pat then rep @ drop (length pat) (u # us)
      else u # replace pat rep us)"

section \<open>The case conversion of the scule package\<close>

text \<open>
  Modelled from the spec: \<^verbatim>\<open>pascalCase\<close> is imported from the package \<^verbatim>\<open>scule\<close>, whose
  source is not part of the repository. The spec asks for the PascalCase identifier form
  with each word boundary capitalised. The model follows the package's algorithm: the
  string is cut at the separators \<^verbatim>\<open>- _ / .\<close> (which are dropped) and at changes of letter
  case, the first code unit of every piece is put in upper case, and the pieces are joined.
  Blanks are not separators.
\<close>

definition STR_SPLITTERS :: "jstring list" where
  "STR_SPLITTERS = [js ''-'', js ''_'', js ''/'', js ''.'']"

text \<open>The test of the regular expression \<^verbatim>\<open>/\d/\<close>: some code unit is a digit.\<close>

definition NUMBER_CHAR_RE :: "jstring \<Rightarrow> bool" where
  "NUMBER_CHAR_RE char = list_ex (\<lambda>u. of_char CHR ''0'' \<le> u \<and> u \<le> of_char CHR ''9'') char"

text \<open>\<open>None\<close> is the \<^verbatim>\<open>undefined\<close> that a digit yields.\<close>

definition isUppercase :: "case_mapping \<Rightarrow> jstring \<Rightarrow> bool option" where
  "isUppercase cm char =
     (if NUMBER_CHAR_RE char then None else Some (char \<noteq> toLowerCase cm char))"

record split_state =
  parts :: "jstring list"
  buff :: jstring
  previousUpper :: "bool option"
  previousSplitter :: "bool option"

definition split_init :: split_state where
  "split_init = \<lparr>parts = [], buff = [], previousUpper = None, previousSplitter = None\<rparr>"

text \<open>
  One round of the loop over the characters of the string. The length of the buffer and
  its last element are counted in code units.
\<close>

definition split_step :: "case_mapping \<Rightarrow> split_state \<Rightarrow> jstring \<Rightarrow> split_state" where
  "split_step cm st char =
     (if char \<in> set STR_SPLITTERS
      then st\<lparr>parts := parts st @ [buff st], buff := [], previousUpper := None\<rparr>
      else
        let isUpper = isUppercase cm char in
        if previousSplitter st = Some False \<and> previousUpper st = Some False
             \<and> isUpper = Some True
        then st\<lparr>parts := parts st @ [buff st], buff := char, previousUpper := isUpper\<rparr>
        else if previousSplitter st = Some False \<and> previousUpper st = Some True
             \<and> isUpper = Some False \<and> length (buff st) > 1
        then st\<lparr>parts := parts st @ [butlast (buff st)], buff := last (buff st) # char,
                previousUpper := isUpper\<rparr>
        else st\<lparr>buff := buff st @ char, previousUpper := isUpper,
                previousSplitter := Some False\<rparr>)"

definition splitByCase :: "case_mapping \<Rightarrow> jstring \<Rightarrow> jstring list" where
  "splitByCase cm str =
     (if str = [] then []
      else let st = foldl (split_step cm) split_init (code_points str)
           in parts st @ [buff st])"

text \<open>\<^verbatim>\<open>str[0].toUpperCase() + str.slice(1)\<close>: the first code unit alone is mapped.\<close>

definition upperFirst :: "case_mapping \<Rightarrow> jstring \<Rightarrow> jstring" where
  "upperFirst cm str = (case str of [] \<Rightarrow> [] | u # us \<Rightarrow> toUpperCase cm [u] @ us)"

definition pascalCase :: "case_mapping \<Rightarrow> jstring \<Rightarrow> jstring" where
  "pascalCase cm str =
     (if str = [] then [] else concat (map (upperFirst cm) (splitByCase cm str)))"

section \<open>Name normalisation\<close>

text \<open>\<^verbatim>\<open>correctName\<close>, lines 110 to 112 of \<^verbatim>\<open>src/template.ts\<close>.\<close>

definition correctName :: "case_mapping \<Rightarrow> jstring \<Rightarrow> jstring" where
  "correctName cm name =
     pascalCase cm (replace (js ''.vue'') [] (replaceAll (of_char CHR '':'') (js ''-'') name))"

section \<open>Failures and the record of a run\<close>

text \<open>
  Every exception the program can meet is a value: the three errors the source raises
  itself, the dereference of an absent template block, and whatever a collaborator throws.
\<close>

datatype error =
    ParseError jstring
  | ComponentNotFound jstring
  | MissingI18nDependency
  | TypeError
  | Thrown jstring

record sfc_block =
  content :: jstring

record style_block = sfc_block +
  scoped :: bool

record script_block = sfc_block +
  bindings :: "(jstring \<times> jstring) list"

text \<open>What the style compiler and the template compiler return: the generated text.\<close>

record compile_results =
  code :: jstring

text \<open>
  The descriptor that \<^verbatim>\<open>parse\<close> returns. An absent block (\<^verbatim>\<open>null\<close>) is \<open>None\<close>.
\<close>

record sfc_descriptor =
  filename :: jstring
  template :: "sfc_block option"
  script :: "sfc_block option"
  scriptSetup :: "sfc_block option"
  styles :: "style_block list"

text \<open>
  The requests sent to the compiler services and to the module evaluator, with their
  arguments in the order of the comments, and the lines written to the console.
\<close>

datatype request =
    Parse jstring jstring
      \<comment> \<open>source, filename\<close>
  | CompileScript sfc_descriptor jstring jstring
      \<comment> \<open>descriptor, id, genDefaultAs\<close>
  | CompileStyle jstring jstring jstring bool
      \<comment> \<open>id, filename, source, scoped\<close>
  | CompileTemplate jstring jstring jstring "(jstring \<times> jstring) list option"
      \<comment> \<open>filename, id, source, bindingMetadata\<close>
  | ImportModule jstring

datatype notice =
    Compiling jstring
  | GeneratingOutput
  | InjectingTranslations
  | RenderingTemplate jstring

datatype event =
    Warn notice
  | LogError jstring error
  | Called request

type_synonym 'a run = "(error + 'a) \<times> event list"

definition ok :: "'a \<Rightarrow> 'a run" where
  "ok x = (Inr x, [])"

definition throw :: "error \<Rightarrow> 'a run" where
  "throw e = (Inl e, [])"

definition emit :: "event \<Rightarrow> unit run" where
  "emit ev = (Inr (), [ev])"

definition warn_if :: "bool \<Rightarrow> notice \<Rightarrow> unit run" where
  "warn_if verbose n = (if verbose then emit (Warn n) else ok ())"

text \<open>A call of a collaborator: the request is recorded, the outcome is the collaborator's.\<close>

definition ask :: "request \<Rightarrow> error + 'a \<Rightarrow> 'a run" where
  "ask r outcome = (outcome, [Called r])"

text \<open>Sequencing: an exception skips everything that follows it.\<close>

definition bnd :: "'a run \<Rightarrow> ('a \<Rightarrow> 'b run) \<Rightarrow> 'b run" where
  "bnd m f =
     (case m of
        (Inl e, es) \<Rightarrow> (Inl e, es)
      | (Inr x, es) \<Rightarrow> (case f x of (r, es') \<Rightarrow> (r, es @ es')))"

section \<open>The source compiler\<close>

text \<open>
  The services of the package \<^verbatim>\<open>@vue/compiler-sfc\<close>, with their arguments in the order of
  the requests above. \<open>parse\<close> returns the descriptor and the list of diagnostics, each
  diagnostic as the text that \<^verbatim>\<open>join\<close> makes of it.
\<close>

record compiler =
  parse :: "jstring \<Rightarrow> jstring \<Rightarrow> error + (sfc_descriptor \<times> jstring list)"
  compileScript :: "sfc_descriptor \<Rightarrow> jstring \<Rightarrow> jstring \<Rightarrow> error + script_block"
  compileStyle :: "jstring \<Rightarrow> jstring \<Rightarrow> jstring \<Rightarrow> bool \<Rightarrow> error + compile_results"
  compileTemplate ::
    "jstring \<Rightarrow> jstring \<Rightarrow> jstring \<Rightarrow> (jstring \<times> jstring) list option \<Rightarrow> error + compile_results"

text \<open>\<^verbatim>\<open>xs.join(sep)\<close>\<close>

fun join :: "jstring \<Rightarrow> jstring list \<Rightarrow> jstring" where
  "join sep [] = []"
| "join sep [x] = x"
| "join sep (x # y # ys) = x @ sep @ join sep (y # ys)"

definition dquote :: code_unit where
  "dquote = 0x22"

definition backslash :: code_unit where
  "backslash = 0x5C"

definition newline :: code_unit where
  "newline = 0x0A"

definition hex_digit :: "nat \<Rightarrow> code_unit" where
  "hex_digit n = js ''0123456789abcdef'' ! (n mod 16)"

text \<open>The escape of a code unit by its four hexadecimal digits, in lower case.\<close>

definition unicode_escape :: "code_unit \<Rightarrow> jstring" where
  "unicode_escape u =
     [backslash, of_char CHR ''u'', hex_digit (unat u div 4096), hex_digit (unat u div 256),
      hex_digit (unat u div 16), hex_digit (unat u)]"

text \<open>
  \<^verbatim>\<open>JSON.stringify\<close> of a string: the quoted text with the escapes of JSON. A surrogate
  that is not part of a pair is escaped, a pair is kept.
\<close>

definition json_escape :: "code_unit \<Rightarrow> jstring" where
  "json_escape u =
     (if u = dquote then [backslash, dquote]
      else if u = backslash then [backslash, backslash]
      else if u = 0x08 then [backslash, of_char CHR ''b'']
      else if u = 0x09 then [backslash, of_char CHR ''t'']
      else if u = 0x0A then [backslash, of_char CHR ''n'']
      else if u = 0x0C then [backslash, of_char CHR ''f'']
      else if u = 0x0D then [backslash, of_char CHR ''r'']
      else if u < 0x20 \<or> high_surrogate u \<or> low_surrogate u then unicode_escape u
      else [u])"

fun json_quote :: "jstring \<Rightarrow> jstring" where
  "json_quote [] = []"
| "json_quote [u] = json_escape u"
| "json_quote (u # v # us) =
     (if high_surrogate u \<and> low_surrogate v then u # v # json_quote us
      else json_escape u @ json_quote (v # us))"

definition JSON_stringify :: "jstring \<Rightarrow> jstring" where
  "JSON_stringify s = [dquote] @ json_quote s @ [dquote]"

definition scriptIdentifier :: jstring where
  "scriptIdentifier = js ''_sfc_main''"

text \<open>
  The template literal that builds the module text: every line of the literal starts
  with a line break and two blanks.
\<close>

definition indent :: jstring where
  "indent = newline # js ''  ''"

definition output_text ::
  "compile_results \<Rightarrow> script_block option \<Rightarrow> compile_results option \<Rightarrow> sfc_descriptor \<Rightarrow> jstring"
where
  "output_text = (\<lambda>template script styles descriptor.
     indent @ code template @ [newline]
     @ indent @ (case script of Some s \<Rightarrow> content s | None \<Rightarrow> [])
     @ indent @ (case styles of Some st \<Rightarrow> js ''const styles = `'' @ code st @ js ''`'' | None \<Rightarrow> [])
     @ indent @ (case script of Some s \<Rightarrow> scriptIdentifier @ js ''.render = render''
                 | None \<Rightarrow> js ''const '' @ scriptIdentifier @ js '' = { render }'')
     @ indent @ (case styles of Some st \<Rightarrow> scriptIdentifier @ js ''.style = styles'' | None \<Rightarrow> [])
     @ indent @ scriptIdentifier @ js ''.__file = ''
              @ JSON_stringify (sfc_descriptor.filename descriptor)
     @ indent @ (case script of Some s \<Rightarrow> js ''export default '' @ scriptIdentifier
                 | None \<Rightarrow> js ''export default { render }'')
     @ indent)"

text \<open>
  \<^verbatim>\<open>compile\<close>, lines 129 to 182. The first style block is read only behind the test that
  the list is not empty; the template block is dereferenced without a test.
\<close>

definition compile :: "compiler \<Rightarrow> jstring \<Rightarrow> jstring \<Rightarrow> bool \<Rightarrow> jstring run" where
  "compile = (\<lambda>sfc filename source verbose.
     bnd (warn_if verbose (Compiling filename)) (\<lambda>_.
     bnd (ask (Parse source filename) (parse sfc source filename)) (\<lambda>(descriptor, errors).
     bnd (if length errors \<noteq> 0 then throw (ParseError (join [newline] errors)) else ok ()) (\<lambda>_.
     bnd (if sfc_descriptor.script descriptor \<noteq> None
             \<or> sfc_descriptor.scriptSetup descriptor \<noteq> None
          then bnd (ask (CompileScript descriptor (sfc_descriptor.filename descriptor)
                           scriptIdentifier)
                      (compileScript sfc descriptor (sfc_descriptor.filename descriptor)
                           scriptIdentifier))
                 (\<lambda>s. ok (Some s))
          else ok None) (\<lambda>script.
     bnd (if length (sfc_descriptor.styles descriptor) \<noteq> 0
          then bnd (ask (CompileStyle (sfc_descriptor.filename descriptor) filename
                           (content (hd (sfc_descriptor.styles descriptor)))
                           (list_ex scoped (sfc_descriptor.styles descriptor)))
                      (compileStyle sfc (sfc_descriptor.filename descriptor) filename
                           (content (hd (sfc_descriptor.styles descriptor)))
                           (list_ex scoped (sfc_descriptor.styles descriptor))))
                 (\<lambda>s. ok (Some s))
          else ok None) (\<lambda>styles.
     bnd (case sfc_descriptor.template descriptor of
            None \<Rightarrow> throw TypeError
          | Some t \<Rightarrow> ok (content t)) (\<lambda>template_source.
     bnd (ask (CompileTemplate filename (sfc_descriptor.filename descriptor) template_source
                 (map_option bindings script))
            (compileTemplate sfc filename (sfc_descriptor.filename descriptor) template_source
                 (map_option bindings script))) (\<lambda>template.
     ok (output_text template script styles descriptor)))))))))"

section \<open>Inputs of a render call\<close>

record sourced =
  source :: jstring

record email_component = sourced +
  name :: jstring

text \<open>\<^verbatim>\<open>SourceOptions\<close>: the root source and the optional list of sub-components.\<close>

record SourceOptions = sourced +
  components :: "email_component list option"

record 't I18n =
  defaultLocale :: "jstring option"
  "translations" :: "'t option"

record ('p, 't) RenderOptions =
  i18n :: "'t I18n option"
  "props" :: "'p option"

text \<open>\<^verbatim>\<open>Options\<close>, the type of \<^verbatim>\<open>config\<close>.\<close>

record ('p, 't) Options =
  verbose :: "bool option"
  options :: "('p, 't) RenderOptions option"

text \<open>
  Truthiness: an absent or empty string is falsy, every object is truthy.
  \<open>or_string a b\<close> and \<open>or_object a b\<close> are \<^verbatim>\<open>a || b\<close>.
\<close>

definition truthy :: "jstring option \<Rightarrow> bool" where
  "truthy v = (case v of None \<Rightarrow> False | Some s \<Rightarrow> s \<noteq> [])"

definition or_string :: "jstring option \<Rightarrow> jstring option \<Rightarrow> jstring option" where
  "or_string a b = (if truthy a then a else b)"

definition or_object :: "'a option \<Rightarrow> 'a option \<Rightarrow> 'a option" where
  "or_object a b = (case a of Some x \<Rightarrow> Some x | None \<Rightarrow> b)"

text \<open>\<^verbatim>\<open>options?.i18n\<close> and \<^verbatim>\<open>config?.options?.i18n\<close>\<close>

definition options_i18n :: "('p, 't) RenderOptions option \<Rightarrow> 't I18n option" where
  "options_i18n = (\<lambda>options. Option.bind options RenderOptions.i18n)"

definition config_i18n :: "('p, 't) Options option \<Rightarrow> 't I18n option" where
  "config_i18n = (\<lambda>config.
     Option.bind (Option.bind config Options.options) RenderOptions.i18n)"

section \<open>The built-in components\<close>

datatype builtin =
    EBody | EHead | EHeading | EButton | EColumn | EContainer | EFont | EHr | EHtml
  | EImg | ELink | EMarkdown | EPreview | ERow | ESection | ETailwind | EText

text \<open>The module-level constant \<^verbatim>\<open>components\<close>: each built-in under its own name.\<close>

definition components :: "(jstring \<times> builtin) list" where
  "components =
     [(js ''EBody'', EBody), (js ''EHead'', EHead), (js ''EHeading'', EHeading),
      (js ''EButton'', EButton), (js ''EColumn'', EColumn),
      (js ''EContainer'', EContainer), (js ''EFont'', EFont), (js ''EHr'', EHr),
      (js ''EHtml'', EHtml), (js ''EImg'', EImg), (js ''ELink'', ELink),
      (js ''EMarkdown'', EMarkdown), (js ''EPreview'', EPreview), (js ''ERow'', ERow),
      (js ''ESection'', ESection), (js ''ETailwind'', ETailwind), (js ''EText'', EText)]"

section \<open>The application instance\<close>

text \<open>
  Modelled from the spec: the application instance comes from the runtime host (the
  package \<^verbatim>\<open>vue\<close>), which is not part of the repository. Following the spec's
  RenderContext it is the root component with its properties, the plugins installed so
  far, the performance flag, and the mapping from names to the sub-components registered
  by \<^verbatim>\<open>app.component\<close>, where a later registration under a name replaces an earlier one.
\<close>

datatype ('p, 't, 'i) plugin =
    VueEmailPlugin "('p, 't) RenderOptions option"
  | I18nPlugin 'i

text \<open>The object \<^verbatim>\<open>{ ...componentCode, components }\<close> handed to \<^verbatim>\<open>app.component\<close>.\<close>

record 'c sub_component =
  spread :: 'c
  components_field :: "(jstring \<times> builtin) list"

record ('c, 'p, 't, 'i) app =
  rootComponent :: 'c
  rootProps :: "'p option"
  installed :: "('p, 't, 'i) plugin list"
  performance :: bool
  registered :: "jstring \<Rightarrow> 'c sub_component option"

text \<open>The options object handed to \<^verbatim>\<open>createI18n\<close>.\<close>

record 't i18n_setup =
  fallbackLocale :: jstring
  "locale" :: jstring
  messages :: "'t option"
  silentFallbackWarn :: bool
  silentTranslationWarn :: bool
  warnHtmlInMessage :: jstring

text \<open>
  The collaborators of the loader and of the orchestrator. \<open>importModule\<close> yields the
  default export of the evaluated module (\<open>None\<close> when it is missing or falsy);
  \<open>install\<close> is the plugin's own installation hook, \<open>Some e\<close> when it throws;
  \<open>caseMapping\<close> is the case mapping of the strings of the runtime.
\<close>

record ('c, 'p, 't, 'i) host =
  importModule :: "jstring \<Rightarrow> error + 'c option"
  install :: "('c, 'p, 't, 'i) app \<Rightarrow> ('p, 't, 'i) plugin \<Rightarrow> error option"
  createI18n :: "'t i18n_setup \<Rightarrow> error + 'i"
  renderToString :: "('c, 'p, 't, 'i) app \<Rightarrow> error + jstring"
  cleanup :: "jstring \<Rightarrow> error + jstring"
  caseMapping :: case_mapping

definition createApp :: "'c \<Rightarrow> 'p option \<Rightarrow> ('c, 'p, 't, 'i) app" where
  "createApp = (\<lambda>component props.
     \<lparr>rootComponent = component, rootProps = props, installed = [], performance = False,
      registered = Map.empty\<rparr>)"

definition app_use ::
  "('c, 'p, 't, 'i) host \<Rightarrow> ('c, 'p, 't, 'i) app \<Rightarrow> ('p, 't, 'i) plugin
     \<Rightarrow> error + ('c, 'p, 't, 'i) app"
where
  "app_use h app plugin =
     (case install h app plugin of
        Some e \<Rightarrow> Inl e
      | None \<Rightarrow> Inr (app\<lparr>installed := installed app @ [plugin]\<rparr>))"

definition app_component ::
  "('c, 'p, 't, 'i) app \<Rightarrow> jstring \<Rightarrow> 'c sub_component \<Rightarrow> ('c, 'p, 't, 'i) app"
where
  "app_component app n d = app\<lparr>registered := (registered app)(n \<mapsto> d)\<rparr>"

section \<open>The dynamic component loader\<close>

text \<open>
  \<^verbatim>\<open>loadComponent\<close>, lines 114 to 127; first the body of its \<^verbatim>\<open>try\<close> block. The name is
  normalised once more, whatever the caller has done.
\<close>

definition loadComponent_try ::
  "compiler \<Rightarrow> ('c, 'p, 't, 'i) host \<Rightarrow> jstring \<Rightarrow> jstring \<Rightarrow> bool \<Rightarrow> 'c option run"
where
  "loadComponent_try = (\<lambda>sfc h name source verbose.
     bnd (compile sfc (correctName (caseMapping h) name) source verbose) (\<lambda>compiledComponent.
     ask (ImportModule compiledComponent) (importModule h compiledComponent)))"

text \<open>
  The loader never raises: a failure of the \<^verbatim>\<open>try\<close> block is written to the console and
  the result is \<^verbatim>\<open>null\<close>.
\<close>

definition loadComponent ::
  "compiler \<Rightarrow> ('c, 'p, 't, 'i) host \<Rightarrow> jstring \<Rightarrow> jstring \<Rightarrow> bool \<Rightarrow> 'c option \<times> event list"
where
  "loadComponent = (\<lambda>sfc h name source verbose.
     case loadComponent_try sfc h name source verbose of
       (Inr componentCode, es) \<Rightarrow> (componentCode, es)
     | (Inl e, es) \<Rightarrow> (None, es @ [LogError (js ''Error loading component'') e]))"

section \<open>The render orchestrator\<close>

text \<open>One round of the loop over \<^verbatim>\<open>code.components\<close>, lines 54 to 63.\<close>

definition register_step ::
  "compiler \<Rightarrow> ('c, 'p, 't, 'i) host \<Rightarrow> bool \<Rightarrow> ('c, 'p, 't, 'i) app \<times> event list
     \<Rightarrow> email_component \<Rightarrow> ('c, 'p, 't, 'i) app \<times> event list"
where
  "register_step = (\<lambda>sfc h verbose (app, es) emailComponent.
     let componentName = correctName (caseMapping h) (email_component.name emailComponent) in
     case loadComponent sfc h componentName (source emailComponent) verbose of
       (componentCode, es') \<Rightarrow>
         (case componentCode of
            Some c \<Rightarrow>
              (app_component app componentName
                 \<lparr>spread = c, components_field = components\<rparr>, es @ es')
          | None \<Rightarrow> (app, es @ es')))"

text \<open>The guarded loop, lines 53 to 64: nothing happens for an absent or empty list.\<close>

definition register_components ::
  "compiler \<Rightarrow> ('c, 'p, 't, 'i) host \<Rightarrow> bool \<Rightarrow> SourceOptions \<Rightarrow> ('c, 'p, 't, 'i) app
     \<Rightarrow> ('c, 'p, 't, 'i) app \<times> event list"
where
  "register_components = (\<lambda>sfc h verbose code app.
     case SourceOptions.components code of
       None \<Rightarrow> (app, [])
     | Some cs \<Rightarrow>
         if length cs > 0 then foldl (register_step sfc h verbose) (app, []) cs
         else (app, []))"

text \<open>Line 37: the localisation intent.\<close>

definition hasI18n ::
  "('p, 't) RenderOptions option \<Rightarrow> ('p, 't) Options option \<Rightarrow> bool"
where
  "hasI18n = (\<lambda>options config.
     truthy (Option.bind (options_i18n options) defaultLocale)
     \<or> truthy (Option.bind (config_i18n config) defaultLocale)
     \<or> Option.bind (options_i18n options) I18n.translations \<noteq> None
     \<or> Option.bind (config_i18n config) I18n.translations \<noteq> None)"

text \<open>Lines 67 to 70: the call's fields win over the configuration's, field by field.\<close>

definition i18nOptions ::
  "('p, 't) RenderOptions option \<Rightarrow> ('p, 't) Options option \<Rightarrow> 't I18n"
where
  "i18nOptions = (\<lambda>options config.
     \<lparr>defaultLocale =
        or_string
          (or_string (Option.bind (options_i18n options) defaultLocale)
                     (Option.bind (config_i18n config) defaultLocale))
          (Some (js ''en'')),
      translations =
        or_object (Option.bind (options_i18n options) I18n.translations)
                  (Option.bind (config_i18n config) I18n.translations)\<rparr>)"

text \<open>
  The body of \<^verbatim>\<open>if (hasI18n)\<close>, lines 66 to 93. Whatever goes wrong while the engine is created or
  installed is replaced by the error about the missing dependency.
\<close>

definition inject_translations ::
  "('c, 'p, 't, 'i) host \<Rightarrow> bool \<Rightarrow> ('p, 't) RenderOptions option \<Rightarrow> ('p, 't) Options option
     \<Rightarrow> ('c, 'p, 't, 'i) app \<Rightarrow> ('c, 'p, 't, 'i) app run"
where
  "inject_translations = (\<lambda>h verbose options config app.
     case defaultLocale (i18nOptions options config) of
       None \<Rightarrow> ok app
     | Some l \<Rightarrow>
         if l \<noteq> [] then
           bnd (warn_if verbose InjectingTranslations) (\<lambda>_.
             case createI18n h
                    \<lparr>fallbackLocale = l, locale = l,
                     messages = I18n.translations (i18nOptions options config),
                     silentFallbackWarn = \<not> verbose, silentTranslationWarn = \<not> verbose,
                     warnHtmlInMessage = js ''off''\<rparr> of
               Inl e \<Rightarrow> throw MissingI18nDependency
             | Inr engine \<Rightarrow>
                 (case app_use h app (I18nPlugin engine) of
                    Inl e \<Rightarrow> throw MissingI18nDependency
                  | Inr app' \<Rightarrow> ok app'))
         else ok app)"

text \<open>\<^verbatim>\<open>config?.verbose || false\<close>\<close>

definition config_verbose :: "('p, 't) Options option \<Rightarrow> bool" where
  "config_verbose = (\<lambda>config.
     case Option.bind config Options.verbose of Some v \<Rightarrow> v | None \<Rightarrow> False)"

text \<open>\<^verbatim>\<open>options?.props || config?.options?.props\<close>\<close>

definition effective_props ::
  "('p, 't) RenderOptions option \<Rightarrow> ('p, 't) Options option \<Rightarrow> 'p option"
where
  "effective_props = (\<lambda>options config.
     or_object (Option.bind options RenderOptions.props)
       (Option.bind (Option.bind config Options.options) RenderOptions.props))"

definition doctype :: jstring where
  \<open>doctype = js ''<!DOCTYPE html PUBLIC "-//W3C//DTD XHTML 1.0 Transitional//EN" "http://www.w3.org/TR/xhtml1/DTD/xhtml1-transitional.dtd">''\<close>

text \<open>The body of the \<^verbatim>\<open>try\<close> block of \<^verbatim>\<open>templateRender\<close>, lines 36 to 102.\<close>

definition templateRender_try ::
  "compiler \<Rightarrow> ('c, 'p, 't, 'i) host \<Rightarrow> jstring \<Rightarrow> SourceOptions
     \<Rightarrow> ('p, 't) RenderOptions option \<Rightarrow> ('p, 't) Options option \<Rightarrow> jstring run"
where
  "templateRender_try = (\<lambda>sfc h name code options config.
     let verbose = config_verbose config;
         props = effective_props options config;
         name = correctName (caseMapping h) name
     in
     bnd (case loadComponent sfc h name (source code) verbose of (c, es) \<Rightarrow> (Inr c, es))
       (\<lambda>component.
     bnd (warn_if verbose GeneratingOutput) (\<lambda>_.
     bnd (case component of None \<Rightarrow> throw (ComponentNotFound name) | Some c \<Rightarrow> ok c)
       (\<lambda>component.
     bnd (app_use h (createApp component props)
            (VueEmailPlugin (Option.bind config Options.options)), []) (\<lambda>app.
     bnd (case register_components sfc h verbose code (app\<lparr>performance := True\<rparr>) of
            (app', es) \<Rightarrow> (Inr app', es)) (\<lambda>app.
     bnd (if hasI18n options config then inject_translations h verbose options config app
          else ok app) (\<lambda>app.
     bnd (warn_if verbose (RenderingTemplate name)) (\<lambda>_.
     bnd (renderToString h app, []) (\<lambda>markup.
     bnd (cleanup h markup, []) (\<lambda>cleaned.
     ok (doctype @ cleaned)))))))))))"

text \<open>
  The whole function: the \<^verbatim>\<open>catch\<close> clause writes the error to the console and returns
  the empty string.
\<close>

definition templateRender ::
  "compiler \<Rightarrow> ('c, 'p, 't, 'i) host \<Rightarrow> jstring \<Rightarrow> SourceOptions
     \<Rightarrow> ('p, 't) RenderOptions option \<Rightarrow> ('p, 't) Options option \<Rightarrow> jstring \<times> event list"
where
  "templateRender = (\<lambda>sfc h name code options config.
     case templateRender_try sfc h name code options config of
       (Inr doc, es) \<Rightarrow> (doc, es)
     | (Inl e, es) \<Rightarrow> ([], es @ [LogError (js ''Error rendering template'') e]))"

section \<open>Predicates of the properties\<close>

text \<open>A code unit is plain when it is neither a separator nor the colon.\<close>

definition plain :: "code_unit \<Rightarrow> bool" where
  "plain u = ([u] \<notin> set STR_SPLITTERS \<and> u \<noteq> of_char CHR '':'')"

text \<open>
  A code unit is steady when \<^verbatim>\<open>toUpperCase\<close> leaves it alone in case it is a surrogate or
  counts as upper case. A title-case letter such as U+01C5 is not steady: it differs from
  its lower case U+01C6 and from its upper case U+01C4.
\<close>

definition steady :: "case_mapping \<Rightarrow> code_unit \<Rightarrow> bool" where
  "steady cm u =
     (if high_surrogate u \<or> low_surrogate u \<or> isUppercase cm [u] = Some True
      then toUpperCase cm [u] = [u] else True)"

text \<open>
  A plain code unit is tame when it is steady and its upper case is not empty, consists of
  plain and steady code units, and begins with a code unit that \<^verbatim>\<open>toUpperCase\<close> leaves
  alone. Nothing is asked of a separator or of the colon.
\<close>

definition tame :: "case_mapping \<Rightarrow> code_unit \<Rightarrow> bool" where
  "tame cm u =
     (if plain u
      then steady cm u
           \<and> toUpperCase cm [u] \<noteq> []
           \<and> list_all (\<lambda>v. plain v \<and> steady cm v) (toUpperCase cm [u])
           \<and> toUpperCase cm [hd (toUpperCase cm [u])] = [hd (toUpperCase cm [u])]
      else True)"

text \<open>A character as the iteration yields it: one code unit, or a surrogate pair.\<close>

definition glyph :: "jstring \<Rightarrow> bool" where
  "glyph c = (case c of [u] \<Rightarrow> True | [h, l] \<Rightarrow> high_surrogate h \<and> low_surrogate l
              | _ \<Rightarrow> False)"

text \<open>
  The invariant of the splitting loop after the characters \<open>cs\<close>, none of them a
  separator: the pieces concatenate to the text read so far and \<^const>\<open>upperFirst\<close> leaves
  each of them alone.
\<close>

definition settled :: "case_mapping \<Rightarrow> jstring list \<Rightarrow> split_state \<Rightarrow> bool" where
  "settled cm cs st =
     (concat (parts st) @ buff st = concat cs \<and>
      list_all (\<lambda>p. upperFirst cm p = p) (parts st) \<and>
      upperFirst cm (buff st) = buff st \<and>
      (cs \<noteq> [] \<longrightarrow> buff st \<noteq> [] \<and> last (buff st) = last (last cs)
          \<and> previousUpper st = isUppercase cm (last cs)
          \<and> (isUppercase cm (last cs) = Some True
               \<longrightarrow> toUpperCase cm [last (last cs)] = [last (last cs)])))"

text \<open>The requests for a style compilation among the events of a run.\<close>

fun style_requests :: "event list \<Rightarrow> request list" where
  "style_requests [] = []"
| "style_requests (Called (CompileStyle i f s sc) # es) =
     CompileStyle i f s sc # style_requests es"
| "style_requests (e # es) = style_requests es"

section \<open>A small installation for concrete runs\<close>

text \<open>
  An excerpt of the case mapping of Unicode, for concrete runs: the ASCII letters, the
  letter e with acute accent, and the digraph of D with z and caron in its three forms
  (upper case U+01C4, title case U+01C5, lower case U+01C6). It agrees with JavaScript on
  texts of these characters and of characters without case.
\<close>

definition upper_unit :: "code_unit \<Rightarrow> code_unit" where
  "upper_unit u =
     (if of_char CHR ''a'' \<le> u \<and> u \<le> of_char CHR ''z'' then u - 32
      else if u = 0xE9 then 0xC9
      else if u = 0x1C5 \<or> u = 0x1C6 then 0x1C4
      else u)"

definition lower_unit :: "code_unit \<Rightarrow> code_unit" where
  "lower_unit u =
     (if of_char CHR ''A'' \<le> u \<and> u \<le> of_char CHR ''Z'' then u + 32
      else if u = 0xC9 then 0xE9
      else if u = 0x1C4 \<or> u = 0x1C5 then 0x1C6
      else u)"

definition example_casing :: case_mapping where
  "example_casing = \<lparr>toUpperCase = map upper_unit, toLowerCase = map lower_unit\<rparr>"

text \<open>
  Collaborators that are simple enough to evaluate: the parser knows three sources and
  reports two diagnostics for every other text; a component is represented by the text of
  its module; the serialised markup is a greeting followed by the locale of every
  localisation engine that is installed, and the clean-up removes the marker of the
  application from it.
\<close>

definition hi_source :: jstring where
  "hi_source = js ''<template><p>Hi</p></template>''"

definition styled_source :: jstring where
  "styled_source =
     js ''<template><b>x</b></template><style>b{}</style><style scoped>i{}</style>''"

definition scripted_source :: jstring where
  "scripted_source = js ''<script setup>const a = 1</script><template><i>a</i></template>''"

definition broken_source :: jstring where
  "broken_source = js ''<template><p>''"

definition diagnostics :: "jstring list" where
  "diagnostics =
     [js ''SyntaxError: Element is missing end tag.'', js ''SyntaxError: Invalid end tag.'']"

definition example_sfc :: compiler where
  "example_sfc =
     \<lparr>parse = (\<lambda>src fn.
        if src = hi_source then
          Inr (\<lparr>filename = fn, template = Some \<lparr>content = js ''<p>Hi</p>''\<rparr>, script = None,
                scriptSetup = None, styles = []\<rparr>, [])
        else if src = styled_source then
          Inr (\<lparr>filename = fn, template = Some \<lparr>content = js ''<b>x</b>''\<rparr>, script = None,
                scriptSetup = None,
                styles = [\<lparr>content = js ''b{}'', scoped = False\<rparr>,
                          \<lparr>content = js ''i{}'', scoped = True\<rparr>]\<rparr>, [])
        else if src = scripted_source then
          Inr (\<lparr>filename = fn, template = Some \<lparr>content = js ''<i>a</i>''\<rparr>, script = None,
                scriptSetup = Some \<lparr>content = js ''const a = 1''\<rparr>, styles = []\<rparr>, [])
        else
          Inr (\<lparr>filename = fn, template = None, script = None, scriptSetup = None,
                styles = []\<rparr>, diagnostics)),
      compileScript = (\<lambda>d i g.
        Inr \<lparr>content = js ''const '' @ g @ js '' = {}'',
             bindings = [(js ''a'', js ''setup-const'')]\<rparr>),
      compileStyle = (\<lambda>i f s sc. Inr \<lparr>code = s\<rparr>),
      compileTemplate = (\<lambda>f i s b. Inr \<lparr>code = js ''function render() {}''\<rparr>)\<rparr>"

text \<open>The module text that the example compiler produces for \<^const>\<open>styled_source\<close>.\<close>

definition styled_module :: "jstring \<Rightarrow> jstring" where
  "styled_module fn =
     indent @ js ''function render() {}'' @ [newline]
     @ indent
     @ indent @ js ''const styles = `b{}`''
     @ indent @ js ''const _sfc_main = { render }''
     @ indent @ js ''_sfc_main.style = styles''
     @ indent @ js ''_sfc_main.__file = '' @ JSON_stringify fn
     @ indent @ js ''export default { render }''
     @ indent"

definition plugin_locale :: "('p, 't, 't i18n_setup) plugin \<Rightarrow> jstring" where
  "plugin_locale p =
     (case p of I18nPlugin engine \<Rightarrow> js '' ('' @ locale engine @ js '')''
      | VueEmailPlugin _ \<Rightarrow> [])"

definition example_host :: "(jstring, unit, unit, unit i18n_setup) host" where
  "example_host =
     \<lparr>importModule = (\<lambda>m. Inr (Some m)),
      install = (\<lambda>a p. None),
      createI18n = (\<lambda>cfg. Inr cfg),
      renderToString = (\<lambda>a.
        Inr (js ''<p data-v-app>Hi'' @ concat (map plugin_locale (installed a)) @ js ''</p>'')),
      cleanup = (\<lambda>m. Inr (replace (js '' data-v-app'') [] m)),
      caseMapping = example_casing\<rparr>"

section \<open>Properties of the name normaliser\<close>

lemma splitters_units: "[u] \<in> set STR_SPLITTERS \<longleftrightarrow> u = 45 \<or> u = 95 \<or> u = 47 \<or> u = 46"
  by (auto simp: STR_SPLITTERS_def js_def)

lemma plain_iff: "plain u \<longleftrightarrow> u \<noteq> 45 \<and> u \<noteq> 95 \<and> u \<noteq> 47 \<and> u \<noteq> 46 \<and> u \<noteq> 58"
  by (auto simp: plain_def splitters_units)

lemma surrogate_plain: "high_surrogate u \<or> low_surrogate u \<Longrightarrow> plain u"
  by (auto simp: plain_iff high_surrogate_def low_surrogate_def)

lemma tame_steady: "plain u \<Longrightarrow> tame cm u \<Longrightarrow> steady cm u"
  by (simp add: tame_def)

subsection \<open>The characters of a string\<close>

lemma concat_code_points: "concat (code_points s) = s"
  by (induction s rule: code_points.induct) simp_all

lemma code_points_glyph: "c \<in> set (code_points s) \<Longrightarrow> glyph c \<and> set c \<subseteq> set s"
  by (induction s rule: code_points.induct) (auto simp: glyph_def split: if_splits)

lemma glyph_cases:
  assumes "glyph c"
  obtains u where "c = [u]" | h l where "c = [h, l]" "high_surrogate h" "low_surrogate l"
  using assms by (auto simp: glyph_def split: list.splits)

lemma glyph_not_splitter_plain:
  assumes "glyph c" "c \<notin> set STR_SPLITTERS" "of_char CHR '':'' \<notin> set c"
  shows "list_all plain c"
  using assms(1)
proof (cases rule: glyph_cases)
  case (1 u)
  with assms(2,3) show ?thesis by (simp add: plain_def)
next
  case (2 h l)
  then show ?thesis by (simp add: surrogate_plain)
qed

lemma glyph_plain_not_splitter:
  assumes "glyph c" "list_all plain c"
  shows "c \<notin> set STR_SPLITTERS"
  using assms(1)
proof (cases rule: glyph_cases)
  case (1 u)
  with assms(2) show ?thesis by (simp add: plain_def)
next
  case (2 h l)
  then show ?thesis by (simp add: STR_SPLITTERS_def js_def)
qed

subsection \<open>The output of the case conversion\<close>

text \<open>What the loop keeps of a property of the code units it reads.\<close>

lemma split_step_keeps:
  assumes "list_all (list_all P) (parts st)" "list_all P (buff st)"
    and "c \<notin> set STR_SPLITTERS \<Longrightarrow> list_all P c"
  shows "list_all (list_all P) (parts (split_step cm st c))
       \<and> list_all P (buff (split_step cm st c))"
proof (cases "c \<in> set STR_SPLITTERS")
  case True
  with assms show ?thesis by (simp add: split_step_def)
next
  case False
  then have pc: "list_all P c" using assms(3) by simp
  have bl: "list_all P (butlast (buff st))"
    using assms(2) by (auto simp: list_all_iff dest: in_set_butlastD)
  have la: "buff st \<noteq> [] \<Longrightarrow> P (last (buff st))"
    using assms(2) by (auto simp: list_all_iff)
  have ne: "1 < length (buff st) \<Longrightarrow> buff st \<noteq> []" by auto
  show ?thesis using False assms(1,2) pc bl la ne
    by (simp add: split_step_def Let_def)
qed

lemma foldl_split_step_keeps:
  assumes "list_all (list_all P) (parts st)" "list_all P (buff st)"
    and "\<forall>c\<in>set cs. c \<notin> set STR_SPLITTERS \<longrightarrow> list_all P c"
  shows "list_all (list_all P) (parts (foldl (split_step cm) st cs))
       \<and> list_all P (buff (foldl (split_step cm) st cs))"
  using assms
proof (induction cs arbitrary: st)
  case Nil
  then show ?case by simp
next
  case (Cons c cs)
  have "list_all (list_all P) (parts (split_step cm st c))
      \<and> list_all P (buff (split_step cm st c))"
    using split_step_keeps[of P st c cm] Cons.prems by simp
  then show ?case using Cons.IH[of "split_step cm st c"] Cons.prems(3) by simp
qed

lemma splitByCase_keeps:
  assumes "of_char CHR '':'' \<notin> set z" "\<forall>u\<in>set z. plain u \<longrightarrow> P u"
  shows "list_all (list_all (\<lambda>u. plain u \<and> P u)) (splitByCase cm z)"
proof (cases "z = []")
  case True
  then show ?thesis by (simp add: splitByCase_def)
next
  case False
  let ?Q = "\<lambda>u. plain u \<and> P u"
  have "\<forall>c\<in>set (code_points z). c \<notin> set STR_SPLITTERS \<longrightarrow> list_all ?Q c"
  proof (intro ballI impI)
    fix c assume c: "c \<in> set (code_points z)" "c \<notin> set STR_SPLITTERS"
    then have g: "glyph c" "set c \<subseteq> set z" using code_points_glyph by blast+
    then have "of_char CHR '':'' \<notin> set c" using assms(1) by blast
    with g(1) c(2) have pl: "list_all plain c" by (rule glyph_not_splitter_plain)
    then have "list_all P c" using g(2) assms(2) by (auto simp: list_all_iff)
    with pl show "list_all ?Q c" by (auto simp: list_all_iff)
  qed
  then have "list_all (list_all ?Q) (parts (foldl (split_step cm) split_init (code_points z)))
      \<and> list_all ?Q (buff (foldl (split_step cm) split_init (code_points z)))"
    by (intro foldl_split_step_keeps) (simp_all add: split_init_def)
  then show ?thesis using False by (simp add: splitByCase_def Let_def)
qed

lemma upperFirst_Nil: "upperFirst cm [] = []"
  by (simp add: upperFirst_def)

lemma upperFirst_tame:
  assumes "list_all (\<lambda>u. plain u \<and> tame cm u) p"
  shows "list_all (\<lambda>v. plain v \<and> steady cm v) (upperFirst cm p)
       \<and> (p \<noteq> [] \<longrightarrow> upperFirst cm p \<noteq> []
            \<and> toUpperCase cm [hd (upperFirst cm p)] = [hd (upperFirst cm p)])"
proof (cases p)
  case Nil
  then show ?thesis by (simp add: upperFirst_def)
next
  case (Cons u us)
  with assms have u: "plain u" "tame cm u"
    and us: "list_all (\<lambda>v. plain v \<and> steady cm v) us"
    by (auto simp: list_all_iff tame_steady)
  from u have up: "toUpperCase cm [u] \<noteq> []"
    "list_all (\<lambda>v. plain v \<and> steady cm v) (toUpperCase cm [u])"
    "toUpperCase cm [hd (toUpperCase cm [u])] = [hd (toUpperCase cm [u])]"
    by (simp_all add: tame_def)
  show ?thesis using Cons up us by (simp add: upperFirst_def)
qed

lemma concat_upperFirst_tame:
  assumes "list_all (list_all (\<lambda>u. plain u \<and> tame cm u)) ps"
  shows "list_all (\<lambda>v. plain v \<and> steady cm v) (concat (map (upperFirst cm) ps))
       \<and> (concat (map (upperFirst cm) ps) \<noteq> [] \<longrightarrow>
            toUpperCase cm [hd (concat (map (upperFirst cm) ps))]
              = [hd (concat (map (upperFirst cm) ps))])"
  using assms
proof (induction ps)
  case Nil
  then show ?case by simp
next
  case (Cons p ps)
  then have p: "list_all (\<lambda>u. plain u \<and> tame cm u) p"
    and IH: "list_all (\<lambda>v. plain v \<and> steady cm v) (concat (map (upperFirst cm) ps))"
      "concat (map (upperFirst cm) ps) \<noteq> [] \<longrightarrow>
            toUpperCase cm [hd (concat (map (upperFirst cm) ps))]
              = [hd (concat (map (upperFirst cm) ps))]"
    by simp_all
  note uf = upperFirst_tame[OF p]
  show ?case
  proof (cases "p = []")
    case True
    then show ?thesis using IH by (simp add: upperFirst_Nil)
  next
    case False
    with uf have "upperFirst cm p \<noteq> []"
      "toUpperCase cm [hd (upperFirst cm p)] = [hd (upperFirst cm p)]"
      by simp_all
    then show ?thesis using uf IH(1) by simp
  qed
qed

lemma pascalCase_tame:
  assumes "of_char CHR '':'' \<notin> set z" "\<forall>u\<in>set z. plain u \<longrightarrow> tame cm u"
  shows "list_all (\<lambda>v. plain v \<and> steady cm v) (pascalCase cm z)"
    and "pascalCase cm z \<noteq> [] \<Longrightarrow>
           toUpperCase cm [hd (pascalCase cm z)] = [hd (pascalCase cm z)]"
  using concat_upperFirst_tame[OF splitByCase_keeps[OF assms, of cm]]
  by (simp_all add: pascalCase_def split: if_splits)

subsection \<open>A text that the case conversion leaves alone\<close>

lemma upperFirst_butlast:
  assumes "upperFirst cm b = b" "1 < length b"
  shows "upperFirst cm (butlast b) = butlast b"
proof (cases b)
  case Nil
  with assms(2) show ?thesis by simp
next
  case (Cons u us)
  with assms(2) have ne: "us \<noteq> []" by auto
  from assms(1) Cons have "toUpperCase cm [u] @ us = u # us" by (simp add: upperFirst_def)
  then have "butlast (toUpperCase cm [u] @ us) = butlast (u # us)" by simp
  then have "toUpperCase cm [u] @ butlast us = u # butlast us"
    using ne by (simp add: butlast_append)
  then show ?thesis using Cons ne by (simp add: upperFirst_def)
qed

lemma upperFirst_append:
  "upperFirst cm b = b \<Longrightarrow> b \<noteq> [] \<Longrightarrow> upperFirst cm (b @ c) = b @ c"
  by (cases b) (auto simp: upperFirst_def)

lemma upperFirst_fixed_head:
  "toUpperCase cm [hd c] = [hd c] \<Longrightarrow> upperFirst cm c = c"
  by (cases c) (auto simp: upperFirst_def)

lemma glyph_upper_ends:
  assumes "glyph c" "list_all (steady cm) c" "isUppercase cm c = Some True"
  shows "toUpperCase cm [hd c] = [hd c] \<and> toUpperCase cm [last c] = [last c]"
  using assms(1)
proof (cases rule: glyph_cases)
  case (1 u)
  with assms(2,3) show ?thesis by (simp add: steady_def)
next
  case (2 h l)
  with assms(2) show ?thesis by (simp add: steady_def)
qed

lemma glyph_nonempty: "glyph c \<Longrightarrow> c \<noteq> []"
  by (auto simp: glyph_def)

lemma settled_step:
  assumes inv: "settled cm cs st" and c: "c \<notin> set STR_SPLITTERS"
    and g: "glyph c" and s: "list_all (steady cm) c"
    and first: "cs = [] \<Longrightarrow> toUpperCase cm [hd c] = [hd c]"
  shows "settled cm (cs @ [c]) (split_step cm st c)"
proof -
  have ne: "c \<noteq> []" using g by (rule glyph_nonempty)
  have ends: "isUppercase cm c = Some True \<Longrightarrow> toUpperCase cm [hd c] = [hd c]"
    "isUppercase cm c = Some True \<Longrightarrow> toUpperCase cm [last c] = [last c]"
    using glyph_upper_ends[OF g s] by simp_all
  show ?thesis
  proof (cases "cs = []")
    case True
    with inv have e: "concat (parts st) = []" "buff st = []"
      "list_all (\<lambda>p. upperFirst cm p = p) (parts st)"
      by (auto simp: settled_def)
    have fc: "upperFirst cm c = c" using first[OF True] by (rule upperFirst_fixed_head)
    show ?thesis using True c e fc ne ends
      by (simp add: settled_def split_step_def Let_def upperFirst_Nil)
  next
    case False
    with inv have b: "buff st \<noteq> []" "last (buff st) = last (last cs)"
      "previousUpper st = isUppercase cm (last cs)" "upperFirst cm (buff st) = buff st"
      "concat (parts st) @ buff st = concat cs"
      "list_all (\<lambda>p. upperFirst cm p = p) (parts st)"
      "isUppercase cm (last cs) = Some True
         \<Longrightarrow> toUpperCase cm [last (last cs)] = [last (last cs)]"
      by (auto simp: settled_def)
    have glue: "butlast (buff st) @ last (buff st) # c = buff st @ c"
      using b(1) by (metis append_butlast_last_id append_Cons append_Nil append_assoc)
    have cat: "concat (parts st) @ butlast (buff st) @ last (last cs) # c = concat cs @ c"
      using glue b(2,5) by (metis append_assoc)
    have fall: "isUppercase cm (last cs) = Some True
        \<Longrightarrow> upperFirst cm (last (last cs) # c) = last (last cs) # c"
      using b(7) by (simp add: upperFirst_def)
    have rise: "isUppercase cm c = Some True \<Longrightarrow> upperFirst cm c = c"
      using ends(1) by (simp add: upperFirst_fixed_head)
    show ?thesis using False c b(1-6) cat fall rise ne ends(2)
      by (simp add: settled_def split_step_def Let_def upperFirst_butlast upperFirst_append)
  qed
qed

lemma settled_foldl:
  assumes "\<forall>c\<in>set cs. c \<notin> set STR_SPLITTERS \<and> glyph c \<and> list_all (steady cm) c"
    and "cs \<noteq> [] \<Longrightarrow> toUpperCase cm [hd (hd cs)] = [hd (hd cs)]"
  shows "settled cm cs (foldl (split_step cm) split_init cs)"
  using assms
proof (induction cs rule: rev_induct)
  case Nil
  then show ?case by (simp add: settled_def split_init_def upperFirst_def)
next
  case (snoc c cs)
  have "settled cm cs (foldl (split_step cm) split_init cs)"
    using snoc by (cases cs) auto
  moreover have "c \<notin> set STR_SPLITTERS" "glyph c" "list_all (steady cm) c"
    using snoc.prems(1) by simp_all
  moreover have "cs = [] \<Longrightarrow> toUpperCase cm [hd c] = [hd c]" using snoc.prems(2) by simp
  ultimately show ?case using settled_step by simp
qed

lemma pascalCase_fixed:
  assumes "list_all (\<lambda>v. plain v \<and> steady cm v) y"
    and "y \<noteq> [] \<Longrightarrow> toUpperCase cm [hd y] = [hd y]"
  shows "pascalCase cm y = y"
proof (cases "y = []")
  case True
  then show ?thesis by (simp add: pascalCase_def)
next
  case False
  let ?cs = "code_points y"
  let ?st = "foldl (split_step cm) split_init ?cs"
  have cat: "concat ?cs = y" by (rule concat_code_points)
  have each: "\<forall>c\<in>set ?cs. c \<notin> set STR_SPLITTERS \<and> glyph c \<and> list_all (steady cm) c"
  proof
    fix c assume "c \<in> set ?cs"
    then have g: "glyph c" "set c \<subseteq> set y" using code_points_glyph by blast+
    with assms(1) have "list_all plain c" "list_all (steady cm) c"
      by (auto simp: list_all_iff)
    with g(1) show "c \<notin> set STR_SPLITTERS \<and> glyph c \<and> list_all (steady cm) c"
      using glyph_plain_not_splitter by blast
  qed
  have csne: "?cs \<noteq> []" using False cat by auto
  have "hd ?cs \<in> set ?cs" using csne by simp
  then have "hd ?cs \<noteq> []" using each glyph_nonempty by blast
  then have "hd (hd ?cs) = hd y" using cat csne
    by (metis concat.simps(2) hd_append2 list.collapse)
  then have first: "?cs \<noteq> [] \<Longrightarrow> toUpperCase cm [hd (hd ?cs)] = [hd (hd ?cs)]"
    using assms(2)[OF False] by simp
  have s: "settled cm ?cs ?st" using each first by (rule settled_foldl)
  then have "map (upperFirst cm) (parts ?st) = parts ?st"
    by (auto simp: settled_def list_all_iff intro: map_idI)
  with s cat have "concat (map (upperFirst cm) (parts ?st @ [buff ?st])) = y"
    by (simp add: settled_def)
  with False show ?thesis by (simp add: pascalCase_def splitByCase_def Let_def)
qed

subsection \<open>The two replacements\<close>

lemma replaceAll_free: "p \<notin> set s \<Longrightarrow> replaceAll p r s = s"
  by (induction s) (auto simp: replaceAll_def)

lemma replaceAll_removes: "p \<notin> set r \<Longrightarrow> p \<notin> set (replaceAll p r s)"
  by (induction s) (auto simp: replaceAll_def)

lemma set_replaceAll: "set (replaceAll p r s) \<subseteq> set s \<union> set r"
  by (induction s) (auto simp: replaceAll_def)

lemma replace_free:
  assumes "pat \<noteq> []" "hd pat \<notin> set s"
  shows "replace pat rep s = s"
  using assms
proof (induction s)
  case Nil
  then show ?case by simp
next
  case (Cons c cs)
  then have "take (length pat) (c # cs) \<noteq> pat"
    by (cases pat) auto
  with Cons show ?case by simp
qed

lemma set_replace_empty: "set (replace pat [] s) \<subseteq> set s"
proof (induction s)
  case Nil
  then show ?case by simp
next
  case (Cons c cs)
  have "set (drop (length pat) (c # cs)) \<subseteq> set (c # cs)" by (rule set_drop_subset)
  with Cons show ?case by auto
qed

text \<open>
  C4, as amended. On a string all of whose plain code units are tame, the normaliser
  applied twice gives what it gives applied once, whatever the case mapping is. The
  normaliser is a total function, defined by recursion over its argument.
\<close>

theorem correctName_idempotent:
  assumes "list_all (tame cm) x"
  shows "correctName cm (correctName cm x) = correctName cm x"
proof -
  let ?colon = "of_char CHR '':'' :: code_unit"
  let ?h = "replaceAll ?colon (js ''-'') x"
  let ?z = "replace (js ''.vue'') [] ?h"
  let ?y = "pascalCase cm ?z"
  have "?colon \<notin> set ?h"
    by (rule replaceAll_removes) (simp add: js_def)
  then have nocolon: "?colon \<notin> set ?z" using set_replace_empty by blast
  have "set ?z \<subseteq> set x \<union> set (js ''-'')"
    using set_replace_empty set_replaceAll by blast
  moreover have "\<not> plain (of_char CHR ''-'')" by (simp add: plain_iff)
  ultimately have tame: "\<forall>u\<in>set ?z. plain u \<longrightarrow> tame cm u"
    using assms by (auto simp: list_all_iff js_def)
  have good: "list_all (\<lambda>v. plain v \<and> steady cm v) ?y"
    and head: "?y \<noteq> [] \<Longrightarrow> toUpperCase cm [hd ?y] = [hd ?y]"
    using pascalCase_tame[OF nocolon tame] by blast+
  from good have "?colon \<notin> set ?y" and nodot: "of_char CHR ''.'' \<notin> set ?y"
    by (auto simp: list_all_iff plain_iff)
  then have "replaceAll ?colon (js ''-'') ?y = ?y" by (simp add: replaceAll_free)
  moreover have "replace (js ''.vue'') [] ?y = ?y"
    using nodot by (intro replace_free) (simp_all add: js_def)
  moreover have "pascalCase cm ?y = ?y" using good head by (rule pascalCase_fixed)
  ultimately show ?thesis by (simp add: correctName_def)
qed

text \<open>
  C4, as stated, fails at the text of the letter B, the title-case letter U+01C5, a colon
  and an exclamation mark. The first run yields B, U+01C5 and the mark; the second cuts
  before U+01C5, which counts as upper case, and \<^verbatim>\<open>toUpperCase\<close> turns it into U+01C4.
\<close>

theorem correctName_idempotent_counterexample:
  "correctName example_casing [0x42, 0x1C5, 0x3A, 0x21] = [0x42, 0x1C5, 0x21]
   \<and> correctName example_casing (correctName example_casing [0x42, 0x1C5, 0x3A, 0x21])
       = [0x42, 0x1C4, 0x21]
   \<and> correctName example_casing (correctName example_casing [0x42, 0x1C5, 0x3A, 0x21])
       \<noteq> correctName example_casing [0x42, 0x1C5, 0x3A, 0x21]"
proof -
  have a: "correctName example_casing [0x42, 0x1C5, 0x3A, 0x21] = [0x42, 0x1C5, 0x21]"
    by code_simp
  have b: "correctName example_casing [0x42, 0x1C5, 0x21] = [0x42, 0x1C4, 0x21]"
    by code_simp
  show ?thesis unfolding a b by simp
qed

text \<open>
  A run of the amended statement, on a name with the lower-case digraph U+01C6 and the
  letter e with acute accent.
\<close>

theorem correctName_idempotent_witness:
  "list_all (tame example_casing) ([0x1C6, 0xE9] @ js '':order-confirmation.vue'')
   \<and> correctName example_casing ([0x1C6, 0xE9] @ js '':order-confirmation.vue'')
       = [0x1C4, 0xE9] @ js ''OrderConfirmation''
   \<and> correctName example_casing ([0x1C4, 0xE9] @ js ''OrderConfirmation'')
       = [0x1C4, 0xE9] @ js ''OrderConfirmation''"
proof -
  have t: "list_all (tame example_casing) ([0x1C6, 0xE9] @ js '':order-confirmation.vue'')"
    by code_simp
  have v: "correctName example_casing ([0x1C6, 0xE9] @ js '':order-confirmation.vue'')
             = [0x1C4, 0xE9] @ js ''OrderConfirmation''"
    by code_simp
  show ?thesis using t v correctName_idempotent[OF t] by simp
qed

text \<open>
  C3. The colon becomes a hyphen everywhere, but the extension is removed where it occurs
  first, not where the name ends: in \<^verbatim>\<open>my.vuetify:card.vue\<close> the text \<^verbatim>\<open>.vue\<close> inside
  \<^verbatim>\<open>.vuetify\<close> is removed and the extension at the end stays, so that the result is
  \<^verbatim>\<open>MytifyCardVue\<close>. The name without its extension gives \<^verbatim>\<open>MyVuetifyCard\<close>.
\<close>

theorem correctName_first_occurrence:
  "replaceAll (of_char CHR '':'') (js ''-'') (js ''my.vuetify:card.vue'')
     = js ''my.vuetify-card.vue''
   \<and> replace (js ''.vue'') [] (js ''my.vuetify-card.vue'') = js ''mytify-card.vue''
   \<and> correctName example_casing (js ''my.vuetify:card.vue'') = js ''MytifyCardVue''
   \<and> pascalCase example_casing (js ''my.vuetify-card'') = js ''MyVuetifyCard''"
  by code_simp

text \<open>The result differs from the name without its extension in PascalCase.\<close>

theorem correctName_first_occurrence_witness:
  "correctName example_casing (js ''my.vuetify:card.vue'')
     \<noteq> pascalCase example_casing (js ''my.vuetify-card'')"
proof -
  have "js ''MytifyCardVue'' \<noteq> js ''MyVuetifyCard''" by code_simp
  then show ?thesis
    using correctName_first_occurrence by simp
qed

section \<open>Properties of the source compiler\<close>

lemma bnd_Inl: "bnd (Inl e, es) f = (Inl e, es)"
  by (simp add: bnd_def)

lemma bnd_Inr: "bnd (Inr x, es) f = (fst (f x), es @ snd (f x))"
  by (simp add: bnd_def split: prod.split)

lemma bnd_ok: "bnd (ok x) f = f x"
  by (simp add: bnd_def ok_def split: prod.split)

lemma bnd_warn_if:
  "bnd (warn_if vb n) f = (fst (f ()), (if vb then [Warn n] else []) @ snd (f ()))"
  by (simp add: warn_if_def emit_def ok_def bnd_Inr)

lemma bnd_ask_Inl: "outcome = Inl e \<Longrightarrow> bnd (ask r outcome) f = (Inl e, [Called r])"
  by (simp add: ask_def bnd_Inl)

lemma bnd_ask_Inr:
  "outcome = Inr x \<Longrightarrow> bnd (ask r outcome) f = (fst (f x), Called r # snd (f x))"
  by (simp add: ask_def bnd_Inr)

text \<open>
  C6. When the parser reports diagnostics, the compiler raises the error whose message
  joins all of them (one per line), and the only request it has made is the one to the
  parser: no script, style or template is compiled.
\<close>

theorem compile_parse_errors:
  assumes "parse sfc src fn = Inr (d, errs)" and "errs \<noteq> []"
  shows "compile sfc fn src vb =
           (Inl (ParseError (join [newline] errs)),
            (if vb then [Warn (Compiling fn)] else []) @ [Called (Parse src fn)])"
  using assms
  by (simp add: compile_def bnd_warn_if bnd_ask_Inr throw_def bnd_Inl)

theorem compile_parse_errors_witness:
  "parse example_sfc broken_source (js ''Broken'') =
     Inr (\<lparr>filename = js ''Broken'', template = None, script = None, scriptSetup = None,
            styles = []\<rparr>,
          [js ''SyntaxError: Element is missing end tag.'', js ''SyntaxError: Invalid end tag.''])
   \<and> compile example_sfc (js ''Broken'') broken_source True =
         (Inl (ParseError
            (js ''SyntaxError: Element is missing end tag.'' @ [newline]
               @ js ''SyntaxError: Invalid end tag.'')),
          [Warn (Compiling (js ''Broken'')), Called (Parse broken_source (js ''Broken''))])"
proof -
  have p: "parse example_sfc broken_source (js ''Broken'') =
     Inr (\<lparr>filename = js ''Broken'', template = None, script = None, scriptSetup = None,
            styles = []\<rparr>,
          [js ''SyntaxError: Element is missing end tag.'', js ''SyntaxError: Invalid end tag.''])"
    by code_simp
  show ?thesis using p compile_parse_errors[OF p, of True] by simp
qed

lemma style_requests_append:
  "style_requests (xs @ ys) = style_requests xs @ style_requests ys"
  by (induction xs rule: style_requests.induct) simp_all

lemma ask_cases:
  "bnd (ask r outcome) f =
     (case outcome of Inl e \<Rightarrow> (Inl e, [Called r])
      | Inr x \<Rightarrow> (fst (f x), Called r # snd (f x)))"
  by (simp add: bnd_ask_Inl bnd_ask_Inr split: sum.split)

text \<open>
  C7. For a parsed source with one or more style blocks, the only style compilation the
  compiler requests is for the content of the first block, and it asks for scoping exactly
  when some block of the list is scoped. (Nothing is requested when a script is present
  and its compilation has failed before.)
\<close>

theorem compile_first_style_any_scoped:
  assumes "parse sfc src fn = Inr (d, [])" and "sfc_descriptor.styles d = s # ss"
  shows "style_requests (snd (compile sfc fn src vb)) =
     (if (sfc_descriptor.script d \<noteq> None \<or> scriptSetup d \<noteq> None)
         \<and> isl (compileScript sfc d (sfc_descriptor.filename d) scriptIdentifier)
      then []
      else [CompileStyle (sfc_descriptor.filename d) fn (content s)
              (\<exists>b\<in>set (s # ss). scoped b)])"
proof -
  show ?thesis
    using assms
    by (simp add: compile_def bnd_warn_if ask_cases bnd_ok bnd_Inl bnd_Inr ok_def throw_def
          style_requests_append list_ex_iff
        split: sum.split option.split)
qed

theorem compile_first_style_any_scoped_witness:
  "parse example_sfc styled_source (js ''Card'') =
     Inr (\<lparr>filename = js ''Card'', template = Some \<lparr>content = js ''<b>x</b>''\<rparr>,
            script = None, scriptSetup = None,
            styles = [\<lparr>content = js ''b{}'', scoped = False\<rparr>,
                      \<lparr>content = js ''i{}'', scoped = True\<rparr>]\<rparr>,
          [])
   \<and> style_requests (snd (compile example_sfc (js ''Card'') styled_source False)) =
       [CompileStyle (js ''Card'') (js ''Card'') (js ''b{}'') True]"
proof -
  let ?d = "\<lparr>filename = js ''Card'', template = Some \<lparr>content = js ''<b>x</b>''\<rparr>,
            script = None, scriptSetup = None,
            styles = [\<lparr>content = js ''b{}'', scoped = False\<rparr>,
                      \<lparr>content = js ''i{}'', scoped = True\<rparr>]\<rparr>"
  have p: "parse example_sfc styled_source (js ''Card'') = Inr (?d, [])"
    by code_simp
  have st: "sfc_descriptor.styles ?d =
      \<lparr>content = js ''b{}'', scoped = False\<rparr> # [\<lparr>content = js ''i{}'', scoped = True\<rparr>]"
    by simp
  show ?thesis
    using p compile_first_style_any_scoped[OF p st, of False] by simp
qed

text \<open>
  C2. The module text for a source with a style block and no script: the style payload
  and the file name are attached to \<^verbatim>\<open>_sfc_main\<close>, but the default export is a new object
  literal that holds the render function only. With a script block the export is
  \<^verbatim>\<open>_sfc_main\<close> itself.
\<close>

theorem compile_style_only_export:
  \<open>fst (compile example_sfc (js ''Card'') styled_source False) =
     Inr (indent @ js ''function render() {}'' @ [newline]
          @ indent
          @ indent @ js ''const styles = `b{}`''
          @ indent @ js ''const _sfc_main = { render }''
          @ indent @ js ''_sfc_main.style = styles''
          @ indent @ js ''_sfc_main.__file = "Card"''
          @ indent @ js ''export default { render }''
          @ indent)
   \<and> fst (compile example_sfc (js ''Card'') scripted_source False) =
     Inr (indent @ js ''function render() {}'' @ [newline]
          @ indent @ js ''const _sfc_main = {}''
          @ indent
          @ indent @ js ''_sfc_main.render = render''
          @ indent
          @ indent @ js ''_sfc_main.__file = "Card"''
          @ indent @ js ''export default _sfc_main''
          @ indent)\<close>
  by code_simp

text \<open>The last statement of the two module texts.\<close>

theorem compile_style_only_export_witness:
  \<open>(\<exists>body. fst (compile example_sfc (js ''Card'') styled_source False) =
        Inr (body @ indent @ js ''_sfc_main.style = styles'' @ indent
             @ js ''_sfc_main.__file = "Card"''
             @ indent @ js ''export default { render }'' @ indent))
   \<and> (\<exists>body. fst (compile example_sfc (js ''Card'') scripted_source False) =
        Inr (body @ indent @ js ''export default _sfc_main'' @ indent))\<close>
proof -
  note both = compile_style_only_export
  have \<open>\<exists>body. fst (compile example_sfc (js ''Card'') styled_source False) =
        Inr (body @ indent @ js ''_sfc_main.style = styles'' @ indent
             @ js ''_sfc_main.__file = "Card"''
             @ indent @ js ''export default { render }'' @ indent)\<close>
    unfolding both[THEN conjunct1]
    by (intro exI[of _ "indent @ js ''function render() {}'' @ [newline] @ indent
          @ indent @ js ''const styles = `b{}`'' @ indent @ js ''const _sfc_main = { render }''"])
       simp
  moreover have "\<exists>body. fst (compile example_sfc (js ''Card'') scripted_source False) =
        Inr (body @ indent @ js ''export default _sfc_main'' @ indent)"
    unfolding both[THEN conjunct2]
    by (intro exI[of _ \<open>indent @ js ''function render() {}'' @ [newline]
          @ indent @ js ''const _sfc_main = {}'' @ indent @ indent
          @ js ''_sfc_main.render = render'' @ indent @ indent
          @ js ''_sfc_main.__file = "Card"''\<close>])
       simp
  ultimately show ?thesis by blast
qed

section \<open>Properties of the loader and of the orchestrator\<close>

lemma fst_bnd: "fst (bnd m f) = (case fst m of Inl e \<Rightarrow> Inl e | Inr x \<Rightarrow> fst (f x))"
  by (cases m; cases "fst m") (auto simp: bnd_def split: prod.split)

lemma fst_ok: "fst (ok x) = Inr x"
  by (simp add: ok_def)

lemma fst_throw: "fst (throw e) = Inl e"
  by (simp add: throw_def)

lemma fst_warn_if: "fst (warn_if vb n) = Inr ()"
  by (simp add: warn_if_def emit_def ok_def)

subsection \<open>The registration loop\<close>

lemma fst_register_step:
  "fst (register_step sfc h vb (a, es) e) =
     (case fst (loadComponent sfc h (correctName (caseMapping h) (email_component.name e)) (source e) vb) of
        Some c \<Rightarrow> app_component a (correctName (caseMapping h) (email_component.name e))
                   \<lparr>spread = c, components_field = components\<rparr>
      | None \<Rightarrow> a)"
  by (simp add: register_step_def Let_def split: prod.split option.split)

lemma fst_foldl_register_step:
  "fst (foldl (register_step sfc h vb) (a, es) cs) =
   fst (foldl (register_step sfc h vb) (a, es') cs)"
proof (induction cs arbitrary: a es es')
  case Nil
  then show ?case by simp
next
  case (Cons c cs)
  obtain a1 e1 where s1: "register_step sfc h vb (a, es) c = (a1, e1)" by (cases "register_step sfc h vb (a, es) c")
  obtain a2 e2 where s2: "register_step sfc h vb (a, es') c = (a2, e2)" by (cases "register_step sfc h vb (a, es') c")
  have "a1 = a2" using s1 s2 fst_register_step[of sfc h vb a es c] fst_register_step[of sfc h vb a es' c]
    by simp
  then show ?case using s1 s2 Cons.IH[of a2 e1 e2] by simp
qed

lemma register_step_skip:
  assumes "fst (loadComponent sfc h (correctName (caseMapping h) (email_component.name e)) (source e) vb) = None"
  shows "fst (register_step sfc h vb (a, es) e) = a"
  using assms by (simp add: fst_register_step)

lemma foldl_register_skip:
  assumes "fst (loadComponent sfc h (correctName (caseMapping h) (email_component.name e)) (source e) vb) = None"
  shows "fst (foldl (register_step sfc h vb) (a, es) (xs @ e # ys)) =
         fst (foldl (register_step sfc h vb) (a, es) (xs @ ys))"
proof -
  obtain a1 e1 where f: "foldl (register_step sfc h vb) (a, es) xs = (a1, e1)"
    by (cases "foldl (register_step sfc h vb) (a, es) xs")
  obtain a2 e2 where s: "register_step sfc h vb (a1, e1) e = (a2, e2)"
    by (cases "register_step sfc h vb (a1, e1) e")
  have "a2 = a1" using register_step_skip[OF assms, of a1 e1] s by simp
  then show ?thesis using f s fst_foldl_register_step[of sfc h vb a1 e2 ys e1] by simp
qed

lemma registered_step_other:
  assumes "correctName (caseMapping h) (email_component.name y) = n \<longrightarrow>
           fst (loadComponent sfc h n (source y) vb) = None"
  shows "registered (fst (register_step sfc h vb (a, es) y)) n = registered a n"
  using assms by (auto simp: fst_register_step app_component_def split: option.split)

lemma registered_foldl_others:
  assumes "\<forall>y\<in>set ys. correctName (caseMapping h) (email_component.name y) = n \<longrightarrow>
           fst (loadComponent sfc h n (source y) vb) = None"
  shows "registered (fst (foldl (register_step sfc h vb) (a, es) ys)) n = registered a n"
  using assms
proof (induction ys arbitrary: a es)
  case Nil
  then show ?case by simp
next
  case (Cons y ys)
  obtain a1 e1 where s: "register_step sfc h vb (a, es) y = (a1, e1)"
    by (cases "register_step sfc h vb (a, es) y")
  have "registered a1 n = registered a n"
    using registered_step_other[where y = y and n = n and sfc = sfc and h = h and vb = vb
        and a = a and es = es] Cons.prems s
    by simp
  moreover have "registered (fst (foldl (register_step sfc h vb) (a1, e1) ys)) n = registered a1 n"
    using Cons.IH[of a1 e1] Cons.prems by simp
  ultimately show ?case using s by simp
qed

text \<open>
  C8. Among the listed sub-components that normalise to the name \<open>n\<close> and load, the last
  one in the order of the list is the one that the mapping binds \<open>n\<close> to after the loop:
  a later registration overwrites an earlier one.
\<close>

theorem register_components_last_wins:
  assumes "SourceOptions.components srcs = Some (xs @ e # ys)"
    and "correctName (caseMapping h) (email_component.name e) = n"
    and "fst (loadComponent sfc h n (source e) vb) = Some c"
    and "\<forall>y\<in>set ys. correctName (caseMapping h) (email_component.name y) = n \<longrightarrow>
           fst (loadComponent sfc h n (source y) vb) = None"
  shows "registered (fst (register_components sfc h vb srcs app)) n =
           Some \<lparr>spread = c, components_field = components\<rparr>"
proof -
  obtain a1 e1 where f: "foldl (register_step sfc h vb) (app, []) xs = (a1, e1)"
    by (cases "foldl (register_step sfc h vb) (app, []) xs")
  obtain a2 e2 where s: "register_step sfc h vb (a1, e1) e = (a2, e2)"
    by (cases "register_step sfc h vb (a1, e1) e")
  have "a2 = app_component a1 n \<lparr>spread = c, components_field = components\<rparr>"
    using fst_register_step[of sfc h vb a1 e1 e] s assms(2,3) by simp
  then have "registered a2 n = Some \<lparr>spread = c, components_field = components\<rparr>"
    by (simp add: app_component_def)
  moreover have "registered (fst (foldl (register_step sfc h vb) (a2, e2) ys)) n = registered a2 n"
    using assms(4) by (rule registered_foldl_others)
  ultimately show ?thesis
    using assms(1) f s by (simp add: register_components_def)
qed

subsection \<open>The outcome of a render without its events\<close>

lemma fst_loadComponent_lift:
  "fst (case loadComponent sfc h n s vb of (c, es) \<Rightarrow> (Inr c, es)) =
   Inr (fst (loadComponent sfc h n s vb))"
  by (simp split: prod.split)

lemma fst_register_lift:
  "fst (case register_components sfc h vb srcs a of (a', es) \<Rightarrow> (Inr a', es)) =
   Inr (fst (register_components sfc h vb srcs a))"
  by (simp split: prod.split)

lemma fst_templateRender_try:
  "fst (templateRender_try sfc h n srcs opts config) =
     (case fst (loadComponent sfc h (correctName (caseMapping h) n) (source srcs) (config_verbose config)) of
        None \<Rightarrow> Inl (ComponentNotFound (correctName (caseMapping h) n))
      | Some root \<Rightarrow>
          (case app_use h (createApp root (effective_props opts config))
                  (VueEmailPlugin (Option.bind config Options.options)) of
             Inl e \<Rightarrow> Inl e
           | Inr app1 \<Rightarrow>
               (case (if hasI18n opts config
                      then fst (inject_translations h (config_verbose config) opts config
                             (fst (register_components sfc h (config_verbose config) srcs
                                (app1\<lparr>performance := True\<rparr>))))
                      else Inr (fst (register_components sfc h (config_verbose config) srcs
                                (app1\<lparr>performance := True\<rparr>)))) of
                  Inl e \<Rightarrow> Inl e
                | Inr app3 \<Rightarrow>
                    (case renderToString h app3 of
                       Inl e \<Rightarrow> Inl e
                     | Inr markup \<Rightarrow>
                         (case cleanup h markup of
                            Inl e \<Rightarrow> Inl e
                          | Inr cleaned \<Rightarrow> Inr (doctype @ cleaned))))))"
  by (simp add: templateRender_try_def Let_def fst_bnd fst_loadComponent_lift fst_register_lift
        fst_ok fst_throw fst_warn_if
      split: option.split sum.split)

lemma fst_templateRender:
  "fst (templateRender sfc h n srcs opts config) =
     (case fst (templateRender_try sfc h n srcs opts config) of Inl e \<Rightarrow> [] | Inr doc \<Rightarrow> doc)"
  by (simp add: templateRender_def split: prod.split sum.split)

subsection \<open>The root component of the application instance\<close>





subsection \<open>The localisation block\<close>

lemma fst_inject_translations:
  "fst (inject_translations h vb opts config a) =
     (case defaultLocale (i18nOptions opts config) of
        None \<Rightarrow> Inr a
      | Some l \<Rightarrow>
          if l \<noteq> [] then
            (case createI18n h
                    \<lparr>fallbackLocale = l, locale = l,
                     messages = I18n.translations (i18nOptions opts config),
                     silentFallbackWarn = \<not> vb, silentTranslationWarn = \<not> vb,
                     warnHtmlInMessage = js ''off''\<rparr> of
               Inl e \<Rightarrow> Inl MissingI18nDependency
             | Inr engine \<Rightarrow>
                 (case app_use h a (I18nPlugin engine) of
                    Inl e \<Rightarrow> Inl MissingI18nDependency
                  | Inr a' \<Rightarrow> Inr a'))
          else Inr a)"
  by (simp add: inject_translations_def fst_bnd fst_warn_if fst_ok fst_throw
      split: option.split sum.split)


lemma resolved_locale:
  "\<exists>l. defaultLocale (i18nOptions opts config) = Some l \<and> l \<noteq> []
     \<and> (\<not> truthy (Option.bind (options_i18n opts) defaultLocale)
        \<and> \<not> truthy (Option.bind (config_i18n config) defaultLocale) \<longrightarrow> l = js ''en'')"
  by (cases "Option.bind (options_i18n opts) defaultLocale";
      cases "Option.bind (config_i18n config) defaultLocale")
     (simp_all add: i18nOptions_def or_string_def truthy_def js_def)

subsection \<open>Success of the \<^verbatim>\<open>try\<close> block\<close>



text \<open>
  C5. A root component that fails to load makes the call return the empty string. A listed
  sub-component that fails to load leaves the application instance as it was, and the
  call returns what it returns without that entry. The loader itself never raises: a
  failure of its \<^verbatim>\<open>try\<close> block is written to the console and the result is \<^verbatim>\<open>null\<close>.
\<close>

theorem load_failure_fatal_only_for_root:
  "(fst (loadComponent sfc h (correctName (caseMapping h) n) (source srcs) (config_verbose config)) = None
      \<longrightarrow> fst (templateRender sfc h n srcs opts config) = [])
   \<and> (SourceOptions.components srcs = Some (xs @ e # ys)
        \<and> fst (loadComponent sfc h (correctName (caseMapping h) (email_component.name e)) (source e)
                 (config_verbose config)) = None
      \<longrightarrow> fst (register_step sfc h (config_verbose config) (a, es) e) = a
        \<and> fst (templateRender sfc h n srcs opts config) =
            fst (templateRender sfc h n (srcs\<lparr>SourceOptions.components := Some (xs @ ys)\<rparr>)
                   opts config))
   \<and> (\<forall>err evs. loadComponent_try sfc h m s vb = (Inl err, evs)
        \<longrightarrow> loadComponent sfc h m s vb =
              (None, evs @ [LogError (js ''Error loading component'') err]))"
proof (intro conjI impI allI)
  assume "fst (loadComponent sfc h (correctName (caseMapping h) n) (source srcs) (config_verbose config)) = None"
  then show "fst (templateRender sfc h n srcs opts config) = []"
    by (simp add: fst_templateRender fst_templateRender_try)
next
  assume "SourceOptions.components srcs = Some (xs @ e # ys)
        \<and> fst (loadComponent sfc h (correctName (caseMapping h) (email_component.name e)) (source e)
                 (config_verbose config)) = None"
  then show "fst (register_step sfc h (config_verbose config) (a, es) e) = a"
    by (simp add: register_step_skip)
next
  assume h: "SourceOptions.components srcs = Some (xs @ e # ys)
        \<and> fst (loadComponent sfc h (correctName (caseMapping h) (email_component.name e)) (source e)
                 (config_verbose config)) = None"
  have eq: "\<And>b. fst (register_components sfc h (config_verbose config) srcs b) =
        fst (register_components sfc h (config_verbose config)
               (srcs\<lparr>SourceOptions.components := Some (xs @ ys)\<rparr>) b)"
    using h foldl_register_skip[of sfc h e "config_verbose config" _ "[]" xs ys]
    by (simp add: register_components_def)
  show "fst (templateRender sfc h n srcs opts config) =
            fst (templateRender sfc h n (srcs\<lparr>SourceOptions.components := Some (xs @ ys)\<rparr>)
                   opts config)"
    unfolding fst_templateRender fst_templateRender_try eq by simp
next
  fix err evs
  assume "loadComponent_try sfc h m s vb = (Inl err, evs)"
  then show "loadComponent sfc h m s vb = (None, evs @ [LogError (js ''Error loading component'') err])"
    by (simp add: loadComponent_def)
qed

text \<open>
  C10. With localisation intent the resolved locale is never empty, and it is \<^verbatim>\<open>en\<close> when
  neither the call nor the configuration gives a default locale. The guard on the locale
  never skips the engine: once the root component is loaded and the application instance
  is set up, the engine is created for the resolved locale; the call fails with the error
  about the missing dependency exactly when this creation or the installation of the
  engine fails, and otherwise the application instance that is serialised has the engine
  installed, and its markup, cleaned, is what the call returns after the doctype.
\<close>

theorem localization_always_injected:
  assumes "hasI18n opts config"
  shows "\<exists>l. defaultLocale (i18nOptions opts config) = Some l \<and> l \<noteq> []
     \<and> (\<not> truthy (Option.bind (options_i18n opts) defaultLocale)
        \<and> \<not> truthy (Option.bind (config_i18n config) defaultLocale) \<longrightarrow> l = js ''en'')
     \<and> fst (templateRender_try sfc h n srcs opts config) =
         (case fst (loadComponent sfc h (correctName (caseMapping h) n) (source srcs)
                      (config_verbose config)) of
            None \<Rightarrow> Inl (ComponentNotFound (correctName (caseMapping h) n))
          | Some root \<Rightarrow>
              (case app_use h (createApp root (effective_props opts config))
                      (VueEmailPlugin (Option.bind config Options.options)) of
                 Inl e \<Rightarrow> Inl e
               | Inr app1 \<Rightarrow>
                   let app2 = fst (register_components sfc h (config_verbose config) srcs
                                     (app1\<lparr>performance := True\<rparr>))
                   in
                   (case createI18n h
                           \<lparr>fallbackLocale = l, locale = l,
                            messages = I18n.translations (i18nOptions opts config),
                            silentFallbackWarn = \<not> config_verbose config,
                            silentTranslationWarn = \<not> config_verbose config,
                            warnHtmlInMessage = js ''off''\<rparr> of
                      Inl e \<Rightarrow> Inl MissingI18nDependency
                    | Inr engine \<Rightarrow>
                        (case install h app2 (I18nPlugin engine) of
                           Some e \<Rightarrow> Inl MissingI18nDependency
                         | None \<Rightarrow>
                             (case renderToString h
                                     (app2\<lparr>installed := installed app2 @ [I18nPlugin engine]\<rparr>) of
                                Inl e \<Rightarrow> Inl e
                              | Inr markup \<Rightarrow>
                                  (case cleanup h markup of
                                     Inl e \<Rightarrow> Inl e
                                   | Inr cleaned \<Rightarrow> Inr (doctype @ cleaned)))))))"
proof -
  obtain l where l: "defaultLocale (i18nOptions opts config) = Some l" "l \<noteq> []"
    and en: "\<not> truthy (Option.bind (options_i18n opts) defaultLocale)
        \<and> \<not> truthy (Option.bind (config_i18n config) defaultLocale) \<longrightarrow> l = js ''en''"
    using resolved_locale by blast
  have block: "fst (inject_translations h vb opts config a) =
      (case createI18n h
              \<lparr>fallbackLocale = l, locale = l,
               messages = I18n.translations (i18nOptions opts config),
               silentFallbackWarn = \<not> vb, silentTranslationWarn = \<not> vb,
               warnHtmlInMessage = js ''off''\<rparr> of
         Inl e \<Rightarrow> Inl MissingI18nDependency
       | Inr engine \<Rightarrow>
           (case install h a (I18nPlugin engine) of
              Some e \<Rightarrow> Inl MissingI18nDependency
            | None \<Rightarrow> Inr (a\<lparr>installed := installed a @ [I18nPlugin engine]\<rparr>)))" for vb a
    using l by (simp add: fst_inject_translations app_use_def split: sum.split option.split)
  have "fst (templateRender_try sfc h n srcs opts config) =
         (case fst (loadComponent sfc h (correctName (caseMapping h) n) (source srcs)
                      (config_verbose config)) of
            None \<Rightarrow> Inl (ComponentNotFound (correctName (caseMapping h) n))
          | Some root \<Rightarrow>
              (case app_use h (createApp root (effective_props opts config))
                      (VueEmailPlugin (Option.bind config Options.options)) of
                 Inl e \<Rightarrow> Inl e
               | Inr app1 \<Rightarrow>
                   let app2 = fst (register_components sfc h (config_verbose config) srcs
                                     (app1\<lparr>performance := True\<rparr>))
                   in
                   (case createI18n h
                           \<lparr>fallbackLocale = l, locale = l,
                            messages = I18n.translations (i18nOptions opts config),
                            silentFallbackWarn = \<not> config_verbose config,
                            silentTranslationWarn = \<not> config_verbose config,
                            warnHtmlInMessage = js ''off''\<rparr> of
                      Inl e \<Rightarrow> Inl MissingI18nDependency
                    | Inr engine \<Rightarrow>
                        (case install h app2 (I18nPlugin engine) of
                           Some e \<Rightarrow> Inl MissingI18nDependency
                         | None \<Rightarrow>
                             (case renderToString h
                                     (app2\<lparr>installed := installed app2 @ [I18nPlugin engine]\<rparr>) of
                                Inl e \<Rightarrow> Inl e
                              | Inr markup \<Rightarrow>
                                  (case cleanup h markup of
                                     Inl e \<Rightarrow> Inl e
                                   | Inr cleaned \<Rightarrow> Inr (doctype @ cleaned)))))))"
    unfolding fst_templateRender_try block Let_def using assms
    by (simp split: option.split sum.split)
  with l en show ?thesis by blast
qed

subsection \<open>A root source that does not parse\<close>

text \<open>
  A root source for which the parser reports diagnostics makes the call return the empty
  string. The parser sees the name after two normalisations.
\<close>

theorem parse_failure_renders_empty:
  assumes "parse sfc (source srcs)
             (correctName (caseMapping h) (correctName (caseMapping h) n)) = Inr (d, errs)"
    and "errs \<noteq> []"
  shows "fst (templateRender sfc h n srcs opts config) = []"
proof -
  let ?n = "correctName (caseMapping h) n"
  have "fst (compile sfc (correctName (caseMapping h) ?n) (source srcs) (config_verbose config))
          = Inl (ParseError (join [newline] errs))"
    using assms by (simp add: compile_def bnd_warn_if bnd_ask_Inr throw_def bnd_Inl)
  then have "fst (loadComponent_try sfc h ?n (source srcs) (config_verbose config))
          = Inl (ParseError (join [newline] errs))"
    by (simp add: loadComponent_try_def fst_bnd)
  then have "fst (loadComponent sfc h ?n (source srcs) (config_verbose config)) = None"
    by (cases "loadComponent_try sfc h ?n (source srcs) (config_verbose config)")
       (simp add: loadComponent_def)
  then show ?thesis
    by (simp add: fst_templateRender fst_templateRender_try)
qed

subsection \<open>Concrete runs\<close>

lemma caseMapping_example: "caseMapping example_host = example_casing"
  by (simp add: example_host_def)


theorem load_failure_fatal_only_for_root_witness:
  "fst (loadComponent example_sfc example_host (correctName example_casing (js ''welcome''))
          broken_source (config_verbose (None :: (unit, unit) Options option))) = None
   \<and> fst (templateRender example_sfc example_host (js ''welcome'')
            \<lparr>source = broken_source, SourceOptions.components = None\<rparr> None None) = []
   \<and> fst (loadComponent example_sfc example_host (correctName example_casing (js ''footer''))
          broken_source (config_verbose (None :: (unit, unit) Options option))) = None
   \<and> fst (templateRender example_sfc example_host (js ''welcome'')
            \<lparr>source = hi_source,
             SourceOptions.components =
               Some [\<lparr>source = hi_source, name = js ''header''\<rparr>,
                     \<lparr>source = broken_source, name = js ''footer''\<rparr>,
                     \<lparr>source = styled_source, name = js ''card''\<rparr>]\<rparr>
            None None) = doctype @ js ''<p>Hi</p>''"
proof -
  let ?g1 = "\<lparr>source = hi_source, name = js ''header''\<rparr>"
  let ?e = "\<lparr>source = broken_source, name = js ''footer''\<rparr>"
  let ?g2 = "\<lparr>source = styled_source, name = js ''card''\<rparr>"
  let ?bad = "\<lparr>source = broken_source, SourceOptions.components = None\<rparr>"
  let ?srcs = "\<lparr>source = hi_source, SourceOptions.components = Some ([?g1] @ ?e # [?g2])\<rparr>"
  let ?none = "None :: (unit, unit) Options option"
  have r: "fst (loadComponent example_sfc example_host
                  (correctName example_casing (js ''welcome'')) (source ?bad)
                  (config_verbose ?none)) = None"
    by code_simp
  have c: "SourceOptions.components ?srcs = Some ([?g1] @ ?e # [?g2])" by simp
  have f: "fst (loadComponent example_sfc example_host
                  (correctName example_casing (email_component.name ?e))
                  (source ?e) (config_verbose ?none)) = None"
    by code_simp
  have w: "fst (templateRender example_sfc example_host (js ''welcome'')
                  (?srcs\<lparr>SourceOptions.components := Some ([?g1] @ [?g2])\<rparr>) None ?none)
             = doctype @ js ''<p>Hi</p>''"
    by code_simp
  note inst1 = load_failure_fatal_only_for_root[where sfc = example_sfc and h = example_host
      and n = "js ''welcome''" and srcs = ?bad and config = ?none and opts = None,
      unfolded caseMapping_example]
  note inst2 = load_failure_fatal_only_for_root[where sfc = example_sfc and h = example_host
      and n = "js ''welcome''" and srcs = ?srcs and config = ?none and opts = None
      and xs = "[?g1]" and e = ?e and ys = "[?g2]", unfolded caseMapping_example]
  have "fst (templateRender example_sfc example_host (js ''welcome'') ?bad None ?none) = []"
    using inst1 r by blast
  moreover have
    "fst (templateRender example_sfc example_host (js ''welcome'') ?srcs None ?none)
      = doctype @ js ''<p>Hi</p>''"
    using inst2 c f w by simp
  ultimately show ?thesis using r f by simp
qed

theorem register_components_last_wins_witness:
  "correctName example_casing (js ''Foo:bar'') = js ''FooBar''
   \<and> correctName example_casing (js ''Foo-bar'') = js ''FooBar''
   \<and> correctName example_casing (js ''Foo_bar'') = js ''FooBar''
   \<and> fst (loadComponent example_sfc example_host (js ''FooBar'') hi_source False) \<noteq> None
   \<and> fst (loadComponent example_sfc example_host (js ''FooBar'') styled_source False)
       = Some (styled_module (js ''FooBar''))
   \<and> fst (loadComponent example_sfc example_host (js ''FooBar'') broken_source False) = None
   \<and> registered
        (fst (register_components example_sfc example_host False
           \<lparr>source = hi_source,
            SourceOptions.components =
              Some [\<lparr>source = hi_source, name = js ''Foo:bar''\<rparr>,
                    \<lparr>source = styled_source, name = js ''Foo-bar''\<rparr>,
                    \<lparr>source = broken_source, name = js ''Foo_bar''\<rparr>,
                    \<lparr>source = hi_source, name = js ''other''\<rparr>]\<rparr>
           (createApp (js ''root'') None)))
        (js ''FooBar'')
      = Some \<lparr>spread = styled_module (js ''FooBar''), components_field = components\<rparr>"
proof -
  let ?e1 = "\<lparr>source = hi_source, name = js ''Foo:bar''\<rparr>"
  let ?e2 = "\<lparr>source = styled_source, name = js ''Foo-bar''\<rparr>"
  let ?e3 = "\<lparr>source = broken_source, name = js ''Foo_bar''\<rparr>"
  let ?e4 = "\<lparr>source = hi_source, name = js ''other''\<rparr>"
  let ?srcs = "\<lparr>source = hi_source,
                SourceOptions.components = Some ([?e1] @ ?e2 # [?e3, ?e4])\<rparr>"
  have n1: "correctName example_casing (js ''Foo:bar'') = js ''FooBar''" by code_simp
  have n2: "correctName (caseMapping example_host) (email_component.name ?e2) = js ''FooBar''"
    by code_simp
  have n3: "correctName example_casing (js ''Foo_bar'') = js ''FooBar''" by code_simp
  have n4: "correctName (caseMapping example_host) (js ''other'') \<noteq> js ''FooBar''"
    by code_simp
  have l1: "fst (loadComponent example_sfc example_host (js ''FooBar'') hi_source False) \<noteq> None"
    by code_simp
  have l2: "fst (loadComponent example_sfc example_host (js ''FooBar'') (source ?e2) False)
              = Some (styled_module (js ''FooBar''))"
    by code_simp
  have l3: "fst (loadComponent example_sfc example_host (js ''FooBar'') broken_source False)
              = None"
    by code_simp
  have c: "SourceOptions.components ?srcs = Some ([?e1] @ ?e2 # [?e3, ?e4])" by simp
  have later: "\<forall>y\<in>set [?e3, ?e4].
           correctName (caseMapping example_host) (email_component.name y) = js ''FooBar'' \<longrightarrow>
           fst (loadComponent example_sfc example_host (js ''FooBar'') (source y) False) = None"
    using l3 n4 by simp
  show ?thesis
    using n1 n2 n3 l1 l2 l3
      register_components_last_wins[OF c n2 l2 later, of "createApp (js ''root'') None"]
    by (simp add: caseMapping_example)
qed

theorem localization_always_injected_witness:
  "hasI18n (Some \<lparr>i18n = Some \<lparr>defaultLocale = None, translations = Some ()\<rparr>,
                   props = (None :: unit option)\<rparr>) None
   \<and> fst (templateRender_try example_sfc example_host (js ''welcome'')
            \<lparr>source = hi_source, SourceOptions.components = None\<rparr>
            (Some \<lparr>i18n = Some \<lparr>defaultLocale = None, translations = Some ()\<rparr>,
                    props = (None :: unit option)\<rparr>) None)
       = Inr (doctype @ js ''<p>Hi (en)</p>'')
   \<and> fst (templateRender example_sfc example_host (js ''welcome'')
            \<lparr>source = hi_source, SourceOptions.components = None\<rparr>
            (Some \<lparr>i18n = Some \<lparr>defaultLocale = Some (js ''nl''), translations = None\<rparr>,
                    props = (None :: unit option)\<rparr>) None)
       = doctype @ js ''<p>Hi (nl)</p>''
   \<and> fst (templateRender example_sfc example_host (js ''welcome'')
            \<lparr>source = hi_source, SourceOptions.components = None\<rparr> None None)
       = doctype @ js ''<p>Hi</p>''"
proof -
  let ?opts = "Some \<lparr>i18n = Some \<lparr>defaultLocale = None, translations = Some ()\<rparr>,
                      props = (None :: unit option)\<rparr>"
  let ?nl = "Some \<lparr>i18n = Some \<lparr>defaultLocale = Some (js ''nl''),
                                 translations = (None :: unit option)\<rparr>,
                    props = (None :: unit option)\<rparr>"
  let ?none = "None :: (unit, unit) Options option"
  let ?srcs = "\<lparr>source = hi_source, SourceOptions.components = None\<rparr>"
  let ?run = "\<lambda>l. case fst (loadComponent example_sfc example_host
                      (correctName (caseMapping example_host) (js ''welcome'')) (source ?srcs)
                      (config_verbose ?none)) of
            None \<Rightarrow> Inl (ComponentNotFound
                      (correctName (caseMapping example_host) (js ''welcome'')))
          | Some root \<Rightarrow>
              (case app_use example_host (createApp root (effective_props ?opts ?none))
                      (VueEmailPlugin (Option.bind ?none Options.options)) of
                 Inl e \<Rightarrow> Inl e
               | Inr app1 \<Rightarrow>
                   let app2 = fst (register_components example_sfc example_host
                                     (config_verbose ?none) ?srcs (app1\<lparr>performance := True\<rparr>))
                   in
                   (case createI18n example_host
                           \<lparr>fallbackLocale = l, locale = l,
                            messages = I18n.translations (i18nOptions ?opts ?none),
                            silentFallbackWarn = \<not> config_verbose ?none,
                            silentTranslationWarn = \<not> config_verbose ?none,
                            warnHtmlInMessage = js ''off''\<rparr> of
                      Inl e \<Rightarrow> Inl MissingI18nDependency
                    | Inr engine \<Rightarrow>
                        (case install example_host app2 (I18nPlugin engine) of
                           Some e \<Rightarrow> Inl MissingI18nDependency
                         | None \<Rightarrow>
                             (case renderToString example_host
                                     (app2\<lparr>installed := installed app2 @ [I18nPlugin engine]\<rparr>) of
                                Inl e \<Rightarrow> Inl e
                              | Inr markup \<Rightarrow>
                                  (case cleanup example_host markup of
                                     Inl e \<Rightarrow> Inl e
                                   | Inr cleaned \<Rightarrow> Inr (doctype @ cleaned))))))"
  have h: "hasI18n ?opts ?none"
    by (simp add: hasI18n_def options_i18n_def)
  have nt: "\<not> truthy (Option.bind (options_i18n ?opts) defaultLocale)
      \<and> \<not> truthy (Option.bind (config_i18n ?none) defaultLocale)"
    by (simp add: truthy_def options_i18n_def config_i18n_def)
  have run: "?run (js ''en'') = Inr (doctype @ js ''<p>Hi (en)</p>'')"
    by code_simp
  from localization_always_injected[OF h, where h = example_host and sfc = example_sfc
      and n = "js ''welcome''" and srcs = ?srcs]
  obtain l where big:
    "defaultLocale (i18nOptions ?opts ?none) = Some l \<and> l \<noteq> []
     \<and> (\<not> truthy (Option.bind (options_i18n ?opts) defaultLocale)
        \<and> \<not> truthy (Option.bind (config_i18n ?none) defaultLocale) \<longrightarrow> l = js ''en'')
     \<and> fst (templateRender_try example_sfc example_host (js ''welcome'') ?srcs ?opts ?none)
         = ?run l"
    by (rule exE)
  have en: "l = js ''en''"
    using big[THEN conjunct2, THEN conjunct2, THEN conjunct1] nt by (rule mp)
  have "fst (templateRender_try example_sfc example_host (js ''welcome'') ?srcs ?opts ?none)
         = ?run l"
    using big[THEN conjunct2, THEN conjunct2] by (rule conjunct2)
  then have first:
    "fst (templateRender_try example_sfc example_host (js ''welcome'') ?srcs ?opts ?none)
       = Inr (doctype @ js ''<p>Hi (en)</p>'')"
    unfolding en run .
  have second: "fst (templateRender example_sfc example_host (js ''welcome'') ?srcs ?nl ?none)
       = doctype @ js ''<p>Hi (nl)</p>''"
    by code_simp
  have third: "fst (templateRender example_sfc example_host (js ''welcome'') ?srcs None ?none)
       = doctype @ js ''<p>Hi</p>''"
    by code_simp
  from h first second third show ?thesis by (intro conjI)
qed

theorem parse_failure_renders_empty_witness:
  "parse example_sfc broken_source
       (correctName example_casing (correctName example_casing (js ''welcome:en''))) =
     Inr (\<lparr>filename = js ''WelcomeEn'', template = None, script = None, scriptSetup = None,
            styles = []\<rparr>, diagnostics)
   \<and> diagnostics \<noteq> []
   \<and> fst (templateRender example_sfc example_host (js ''welcome:en'')
            \<lparr>source = broken_source, SourceOptions.components = None\<rparr> None None) = []"
proof -
  let ?bad = "\<lparr>source = broken_source, SourceOptions.components = None\<rparr>"
  have p: "parse example_sfc (source ?bad)
       (correctName (caseMapping example_host)
          (correctName (caseMapping example_host) (js ''welcome:en''))) =
     Inr (\<lparr>filename = js ''WelcomeEn'', template = None, script = None, scriptSetup = None,
            styles = []\<rparr>, diagnostics)"
    by code_simp
  have e: "diagnostics \<noteq> []"
    by (simp add: diagnostics_def)
  show ?thesis
    using p e parse_failure_renders_empty[OF p e, of None None]
    by (simp add: caseMapping_example)
qed

end
